theory Spec2Isabelle
  imports Main "HOL-Library.Code_Target_Nat"
begin

section \<open>Strings of the host language\<close>

text \<open>
  A JavaScript string is a sequence of UTF-16 code units. The model keeps the code units as
  natural numbers, so that \<open>length\<close> is the \<open>.length\<close> of the source and the character
  classes of the regular expressions can be written with their code points. \<open>js\<close> turns
  a literal of the theory into such a string.
\<close>

type_synonym jsstring = "nat list"

definition js :: "string \<Rightarrow> jsstring" where
  "js s = map of_char s"

text \<open>The class \<open>\w\<close>: ASCII letters, digits and the underscore.\<close>

definition is_word_char :: "nat \<Rightarrow> bool" where
  "is_word_char c \<longleftrightarrow>
     (48 \<le> c \<and> c \<le> 57) \<or> (65 \<le> c \<and> c \<le> 90) \<or> c = 95 \<or> (97 \<le> c \<and> c \<le> 122)"

text \<open>
  The line terminators (LF, CR, U+2028, U+2029), which \<open>.\<close> does not match, and the class
  \<open>\s\<close>: white space and line terminators. \<open>String.prototype.trim\<close> strips the same set.
\<close>

definition is_line_terminator :: "nat \<Rightarrow> bool" where
  "is_line_terminator c \<longleftrightarrow> c = 10 \<or> c = 13 \<or> c = 8232 \<or> c = 8233"

definition is_space :: "nat \<Rightarrow> bool" where
  "is_space c \<longleftrightarrow>
     c = 9 \<or> c = 11 \<or> c = 12 \<or> c = 32 \<or> c = 160 \<or> c = 5760 \<or> (8192 \<le> c \<and> c \<le> 8202)
     \<or> c = 8239 \<or> c = 8287 \<or> c = 12288 \<or> c = 65279 \<or> is_line_terminator c"

definition trim :: "jsstring \<Rightarrow> jsstring" where
  "trim s = rev (dropWhile is_space (rev (dropWhile is_space s)))"

text \<open>
  Under the flag \<open>i\<close> (without \<open>u\<close>) two code units match when their canonical forms are
  equal. The canonical form of an ASCII letter is its upper case; a code unit from 128 on is
  never mapped into ASCII. Every literal character of the patterns below is ASCII, and for
  those the comparison of \<open>canonicalize\<close> is the comparison the engine makes.
\<close>

definition canonicalize :: "nat \<Rightarrow> nat" where
  "canonicalize c = (if 97 \<le> c \<and> c \<le> 122 then c - 32 else c)"

section \<open>Regular expressions\<close>

text \<open>
  A matcher takes the input and a start position and returns the end positions of its
  matches there, in the order in which a backtracking engine tries them. \<open>rx_test\<close> is
  \<open>RegExp.prototype.test\<close> for a pattern without the flags \<open>g\<close> and \<open>y\<close>: some start
  position has a match.
\<close>

type_synonym matcher = "jsstring \<Rightarrow> nat \<Rightarrow> nat list"

definition chr_at :: "jsstring \<Rightarrow> nat \<Rightarrow> nat option" where
  "chr_at s i = (if i < length s then Some (s ! i) else None)"

definition rx_char :: "(nat \<Rightarrow> bool) \<Rightarrow> matcher" where
  "rx_char P s i = (case chr_at s i of None \<Rightarrow> [] | Some c \<Rightarrow> if P c then [Suc i] else [])"

definition rx_seq :: "matcher \<Rightarrow> matcher \<Rightarrow> matcher" where
  "rx_seq a b s i = concat (map (b s) (a s i))"

definition rx_alt :: "matcher \<Rightarrow> matcher \<Rightarrow> matcher" where
  "rx_alt a b s i = a s i @ b s i"

definition rx_opt :: "matcher \<Rightarrow> matcher" where
  "rx_opt a s i = a s i @ [i]"

text \<open>\<open>X*\<close> and \<open>X+\<close> for a class \<open>X\<close> of single characters: the longest run first.\<close>

definition rx_many :: "nat \<Rightarrow> (nat \<Rightarrow> bool) \<Rightarrow> matcher" where
  "rx_many m P s i =
     (let n = length (takeWhile P (drop i s)) in map (\<lambda>k. i + k) (rev [m..<Suc n]))"

definition rx_star :: "(nat \<Rightarrow> bool) \<Rightarrow> matcher" where
  "rx_star = rx_many 0"

definition rx_plus :: "(nat \<Rightarrow> bool) \<Rightarrow> matcher" where
  "rx_plus = rx_many 1"

text \<open>The assertion \<open>\b\<close>: exactly one of the two neighbours is a word character.\<close>

definition word_at :: "jsstring \<Rightarrow> nat \<Rightarrow> bool" where
  "word_at s i = (case chr_at s i of None \<Rightarrow> False | Some c \<Rightarrow> is_word_char c)"

definition rx_wordb :: matcher where
  "rx_wordb s i = (if (0 < i \<and> word_at s (i - 1)) \<noteq> word_at s i then [i] else [])"

definition rx_bol :: matcher where
  "rx_bol s i = (if i = 0 then [i] else [])"

definition rx_eol :: matcher where
  "rx_eol s i = (if i = length s then [i] else [])"

fun rx_lit_ci :: "jsstring \<Rightarrow> matcher" where
  "rx_lit_ci [] = (\<lambda>s i. [i])"
| "rx_lit_ci (p # ps) = rx_seq (rx_char (\<lambda>c. canonicalize c = canonicalize p)) (rx_lit_ci ps)"

definition rx_test :: "matcher \<Rightarrow> jsstring \<Rightarrow> bool" where
  "rx_test r s = list_ex (\<lambda>i. r s i \<noteq> []) [0..<Suc (length s)]"

subsection \<open>The patterns of the moderator\<close>

text \<open>\<^verbatim>\<open>/\b(spam|buy now|click here|free money|onlyfans)\b/i\<close>\<close>

definition rx_keywords :: matcher where
  "rx_keywords =
     rx_seq rx_wordb
       (rx_seq
         (rx_alt (rx_lit_ci (js ''spam''))
           (rx_alt (rx_lit_ci (js ''buy now''))
             (rx_alt (rx_lit_ci (js ''click here''))
               (rx_alt (rx_lit_ci (js ''free money'')) (rx_lit_ci (js ''onlyfans''))))))
         rx_wordb)"

text \<open>\<^verbatim>\<open>/https?:\/\/[^\s]+ https?:\/\//i\<close>\<close>

definition rx_http :: matcher where
  "rx_http = rx_seq (rx_lit_ci (js ''http'')) (rx_seq (rx_opt (rx_lit_ci (js ''s''))) (rx_lit_ci (js ''://'')))"

definition rx_links :: matcher where
  "rx_links = rx_seq rx_http (rx_seq (rx_plus (\<lambda>c. \<not> is_space c)) (rx_seq (rx_lit_ci (js '' '')) rx_http))"

text \<open>
  \<^verbatim>\<open>/^(.)\1{10,}$/\<close>: the back reference repeats the captured code unit itself (no flag
  \<open>i\<close>), so the input is one character that is no line terminator, followed by ten or more
  copies of it, and nothing else.
\<close>

definition test_repeated :: "jsstring \<Rightarrow> bool" where
  "test_repeated s =
     (case s of [] \<Rightarrow> False
      | c # cs \<Rightarrow> \<not> is_line_terminator c \<and> 10 \<le> length cs \<and> list_all (\<lambda>x. x = c) cs)"

text \<open>\<^verbatim>\<open>/^\W+$/\<close>\<close>

definition rx_symbols :: matcher where
  "rx_symbols = rx_seq rx_bol (rx_seq (rx_plus (\<lambda>c. \<not> is_word_char c)) rx_eol)"

text \<open>\<^verbatim>\<open>/first\s*!+$/i\<close>\<close>

definition rx_first :: matcher where
  "rx_first =
     rx_seq (rx_lit_ci (js ''first''))
       (rx_seq (rx_star is_space) (rx_seq (rx_plus (\<lambda>c. c = 33)) rx_eol))"

definition BLOCKED_PATTERNS :: "(jsstring \<Rightarrow> bool) list" where
  "BLOCKED_PATTERNS = [rx_test rx_keywords, rx_test rx_links]"

definition SPAM_PATTERNS :: "(jsstring \<Rightarrow> bool) list" where
  "SPAM_PATTERNS = [test_repeated, rx_test rx_symbols, rx_test rx_first]"

section \<open>Values of the host language and \<open>JSON.parse\<close>\<close>

text \<open>
  The values \<open>JSON.parse\<close> can return. A number keeps its exact decimal value: the sign,
  the digits as a natural number and a power of ten. An object is its list of own
  properties in the order in which the engine enumerates them.
\<close>

datatype json =
    JNull
  | JBool bool
  | JNum bool nat int
  | JStr jsstring
  | JArr "json list"
  | JObj "(jsstring \<times> json) list"

subsection \<open>Tokens\<close>

definition json_ws :: "nat \<Rightarrow> bool" where
  "json_ws c \<longleftrightarrow> c = 32 \<or> c = 9 \<or> c = 10 \<or> c = 13"

definition skip_ws :: "jsstring \<Rightarrow> jsstring" where
  "skip_ws s = dropWhile json_ws s"

definition is_digit :: "nat \<Rightarrow> bool" where
  "is_digit c \<longleftrightarrow> 48 \<le> c \<and> c \<le> 57"

definition hex_val :: "nat \<Rightarrow> nat option" where
  "hex_val c =
     (if 48 \<le> c \<and> c \<le> 57 then Some (c - 48)
      else if 65 \<le> c \<and> c \<le> 70 then Some (c - 55)
      else if 97 \<le> c \<and> c \<le> 102 then Some (c - 87)
      else None)"

text \<open>The escapes \<^verbatim>\<open>\" \\ \/ \b \f \n \r \t\<close>.\<close>

definition unescape :: "nat \<Rightarrow> nat option" where
  "unescape e =
     (if e = 34 \<or> e = 92 \<or> e = 47 then Some e
      else if e = 98 then Some 8
      else if e = 102 then Some 12
      else if e = 110 then Some 10
      else if e = 114 then Some 13
      else if e = 116 then Some 9
      else None)"

text \<open>
  \<open>scan_string\<close> reads a string after its opening quote and returns the decoded
  characters and the input after the closing quote. A control character below U+0020 or
  an unknown escape is a syntax error.
\<close>

fun scan_string :: "jsstring \<Rightarrow> (jsstring \<times> jsstring) option" where
  "scan_string [] = None"
| "scan_string (c # cs) =
     (if c = 34 then Some ([], cs)
      else if c = 92 then
        (case cs of
           [] \<Rightarrow> None
         | e # es \<Rightarrow>
             if e = 117 then
               (case es of
                  h1 # h2 # h3 # h4 # r \<Rightarrow>
                    (case (hex_val h1, hex_val h2, hex_val h3, hex_val h4) of
                       (Some a, Some b, Some c', Some d) \<Rightarrow>
                         map_option (\<lambda>(x, r'). ((((a * 16 + b) * 16 + c') * 16 + d) # x, r'))
                           (scan_string r)
                     | _ \<Rightarrow> None)
                | _ \<Rightarrow> None)
             else
               (case unescape e of
                  None \<Rightarrow> None
                | Some u \<Rightarrow> map_option (\<lambda>(x, r'). (u # x, r')) (scan_string es)))
      else if c < 32 then None
      else map_option (\<lambda>(x, r'). (c # x, r')) (scan_string cs))"

definition digits_val :: "jsstring \<Rightarrow> nat" where
  "digits_val ds = foldl (\<lambda>n d. 10 * n + (d - 48)) 0 ds"

text \<open>
  \<open>scan_number\<close> reads \<^verbatim>\<open>-? (0 | [1-9][0-9]*) (. [0-9]+)? ([eE] [+-]? [0-9]+)?\<close> and returns
  the number and the input after it. Each part returns its digits and the rest of the input,
  or \<open>None\<close> where the grammar asks for a digit and finds none.
\<close>

definition scan_int :: "jsstring \<Rightarrow> (jsstring \<times> jsstring) option" where
  "scan_int s =
     (case s of
        [] \<Rightarrow> None
      | c # cs \<Rightarrow>
          if c = 48 then Some ([c], cs)
          else if is_digit c then Some (takeWhile is_digit s, dropWhile is_digit s)
          else None)"

definition scan_frac :: "jsstring \<Rightarrow> (jsstring \<times> jsstring) option" where
  "scan_frac s =
     (case s of
        [] \<Rightarrow> Some ([], s)
      | c # cs \<Rightarrow>
          if c = 46 then
            (if takeWhile is_digit cs = [] then None
             else Some (takeWhile is_digit cs, dropWhile is_digit cs))
          else Some ([], s))"

definition scan_digits1 :: "jsstring \<Rightarrow> (jsstring \<times> jsstring) option" where
  "scan_digits1 s =
     (if takeWhile is_digit s = [] then None
      else Some (takeWhile is_digit s, dropWhile is_digit s))"

definition scan_exp :: "jsstring \<Rightarrow> (int \<times> jsstring) option" where
  "scan_exp s =
     (case s of
        [] \<Rightarrow> Some (0, s)
      | c # cs \<Rightarrow>
          if c = 101 \<or> c = 69 then
            (case cs of
               [] \<Rightarrow> None
             | d # ds \<Rightarrow>
                 if d = 45 then map_option (\<lambda>(e, r). (- int (digits_val e), r)) (scan_digits1 ds)
                 else if d = 43 then map_option (\<lambda>(e, r). (int (digits_val e), r)) (scan_digits1 ds)
                 else map_option (\<lambda>(e, r). (int (digits_val e), r)) (scan_digits1 cs))
          else Some (0, s))"

definition scan_number :: "jsstring \<Rightarrow> (json \<times> jsstring) option" where
  "scan_number s =
     (let neg = (case s of [] \<Rightarrow> False | c # _ \<Rightarrow> c = 45);
          s1 = (if neg then tl s else s)
      in case scan_int s1 of
           None \<Rightarrow> None
         | Some (ip, s2) \<Rightarrow>
             (case scan_frac s2 of
                None \<Rightarrow> None
              | Some (fp, s3) \<Rightarrow>
                  (case scan_exp s3 of
                     None \<Rightarrow> None
                   | Some (ev, s4) \<Rightarrow>
                       Some (JNum neg (digits_val (ip @ fp)) (ev - int (length fp)), s4))))"

lemma skip_ws_shorter: "skip_ws s = c # cs \<Longrightarrow> length cs < length s"
proof -
  assume h: "skip_ws s = c # cs"
  have "length (skip_ws s) \<le> length s"
    unfolding skip_ws_def by (rule length_dropWhile_le)
  with h show ?thesis by simp
qed

lemma scan_int_shorter: "scan_int s = Some (d, r) \<Longrightarrow> length r < length s"
  unfolding scan_int_def
  by (cases s) (auto split: if_splits simp: less_Suc_eq_le length_dropWhile_le)

lemma scan_frac_shorter: "scan_frac s = Some (d, r) \<Longrightarrow> length r \<le> length s"
  unfolding scan_frac_def
  by (cases s) (auto split: if_splits simp: le_SucI length_dropWhile_le)

lemma scan_digits1_shorter: "scan_digits1 s = Some (d, r) \<Longrightarrow> length r \<le> length s"
  unfolding scan_digits1_def
  by (auto split: if_splits simp: length_dropWhile_le)

lemma scan_exp_shorter: "scan_exp s = Some (e, r) \<Longrightarrow> length r \<le> length s"
  unfolding scan_exp_def
  by (cases s) (auto split: if_splits list.splits dest!: scan_digits1_shorter)

lemma scan_number_shorter:
  assumes "scan_number s = Some (v, r)"
  shows "length r < length s"
proof -
  let ?s1 = "if (case s of [] \<Rightarrow> False | c # _ \<Rightarrow> c = 45) then tl s else s"
  from assms obtain ip s2 fp s3 ev where
    a: "scan_int ?s1 = Some (ip, s2)" and b: "scan_frac s2 = Some (fp, s3)"
    and c: "scan_exp s3 = Some (ev, r)"
    unfolding scan_number_def Let_def
    by (auto split: option.splits)
  have "length ?s1 \<le> length s" by simp
  with scan_int_shorter[OF a] scan_frac_shorter[OF b] scan_exp_shorter[OF c]
  show ?thesis by linarith
qed

lemma scan_string_shorter:
  "scan_string s = Some (x, r) \<Longrightarrow> length r < length s"
proof (induction s arbitrary: x r rule: scan_string.induct)
  case 1
  then show ?case by simp
next
  case (2 c cs)
  show ?case
  proof (cases "c = 34")
    case True
    with "2.prems" show ?thesis by simp
  next
    case notq: False
    show ?thesis
    proof (cases "c = 92")
      case False
      with notq "2.prems" obtain x' where "scan_string cs = Some (x', r)"
        by (auto split: if_splits)
      with "2.IH"(3)[OF notq False] notq False "2.prems" show ?thesis
        by (auto split: if_splits)
    next
      case bs: True
      show ?thesis
      proof (cases cs)
        case Nil
        with bs "2.prems" show ?thesis by simp
      next
        case (Cons e es)
        show ?thesis
        proof (cases "e = 117")
          case False
          with bs notq Cons "2.prems" obtain u x' where u: "unescape e = Some u" and
            "scan_string es = Some (x', r)"
            by (auto split: option.splits)
          with "2.IH"(2)[OF notq bs Cons False u] Cons show ?thesis by simp
        next
          case True
          with bs notq Cons "2.prems" obtain h1 h2 h3 h4 r0 a b c' d x' where
            es: "es = h1 # h2 # h3 # h4 # r0" and
            hv: "(hex_val h1, hex_val h2, hex_val h3, hex_val h4) = (Some a, Some b, Some c', Some d)" and
            sr: "scan_string r0 = Some (x', r)"
            by (auto split: list.splits option.splits)
          have "length r < length r0"
            using "2.IH"(1)[OF notq bs Cons True es refl refl refl _ _ _ _ _ _ _ sr] hv
            by simp
          with es Cons show ?thesis by simp
        qed
      qed
    qed
  qed
qed

lemma scan_number_cons_shorter:
  "scan_number (c # cs) = Some (v, r) \<Longrightarrow> length r \<le> length cs"
  using scan_number_shorter[of "c # cs" v r] by simp

subsection \<open>Properties of an object\<close>

text \<open>
  The own properties of an ordinary object are enumerated with the array indices first, in
  ascending numeric order, and the other names after them in the order of their creation. An
  array index is the canonical decimal text of an integer from 0 to \<open>2^32 - 2\<close>.
  \<open>obj_set\<close> is the definition of a data property, as \<open>JSON.parse\<close> does it for each
  member: a repeated key overwrites the earlier value where it stands.
\<close>

definition array_index :: "jsstring \<Rightarrow> nat option" where
  "array_index k =
     (if k \<noteq> [] \<and> list_all is_digit k \<and> (k = [48] \<or> hd k \<noteq> 48) \<and> digits_val k < 2 ^ 32 - 1
      then Some (digits_val k) else None)"

fun obj_insert :: "jsstring \<Rightarrow> json \<Rightarrow> (jsstring \<times> json) list \<Rightarrow> (jsstring \<times> json) list" where
  "obj_insert k v [] = [(k, v)]"
| "obj_insert k v ((k', v') # ps) =
     (case array_index k of
        None \<Rightarrow> (k', v') # obj_insert k v ps
      | Some i \<Rightarrow>
          (case array_index k' of
             None \<Rightarrow> (k, v) # (k', v') # ps
           | Some j \<Rightarrow> if i < j then (k, v) # (k', v') # ps else (k', v') # obj_insert k v ps))"

fun obj_replace :: "jsstring \<Rightarrow> json \<Rightarrow> (jsstring \<times> json) list \<Rightarrow> (jsstring \<times> json) list" where
  "obj_replace k v [] = []"
| "obj_replace k v ((k', v') # ps) = (if k' = k then (k, v) # ps else (k', v') # obj_replace k v ps)"

definition obj_set :: "jsstring \<Rightarrow> json \<Rightarrow> (jsstring \<times> json) list \<Rightarrow> (jsstring \<times> json) list" where
  "obj_set k v ps = (if map_of ps k = None then obj_insert k v ps else obj_replace k v ps)"

subsection \<open>The parser\<close>

text \<open>
  \<open>parse_run\<close> is a recursive-descent parser with an explicit stack of the arrays and
  objects that are still open. The mode says what is expected next: a value, the
  continuation after a finished value, or a key of an object. Every recursive call is on a
  shorter input. \<open>None\<close> is the \<open>SyntaxError\<close> of \<open>JSON.parse\<close>.
\<close>

datatype frame = FArr "json list" | FObj "(jsstring \<times> json) list" jsstring

datatype pmode = PValue | PAfter json | PKey "(jsstring \<times> json) list"

function parse_run :: "pmode \<Rightarrow> frame list \<Rightarrow> jsstring \<Rightarrow> json option" where
  "parse_run m st s =
     (case skip_ws s of
        [] \<Rightarrow> (case m of PAfter v \<Rightarrow> (if st = [] then Some v else None) | _ \<Rightarrow> None)
      | c # cs \<Rightarrow>
          (case m of
             PValue \<Rightarrow>
               if c = 91 then
                 (case skip_ws cs of
                    [] \<Rightarrow> None
                  | d # ds \<Rightarrow>
                      if d = 93 then parse_run (PAfter (JArr [])) st ds
                      else parse_run PValue (FArr [] # st) (d # ds))
               else if c = 123 then
                 (case skip_ws cs of
                    [] \<Rightarrow> None
                  | d # ds \<Rightarrow>
                      if d = 125 then parse_run (PAfter (JObj [])) st ds
                      else parse_run (PKey []) st (d # ds))
               else if c = 34 then
                 (case scan_string cs of
                    None \<Rightarrow> None
                  | Some (x, r) \<Rightarrow> parse_run (PAfter (JStr x)) st r)
               else if take 4 (c # cs) = js ''true'' then
                 parse_run (PAfter (JBool True)) st (drop 3 cs)
               else if take 5 (c # cs) = js ''false'' then
                 parse_run (PAfter (JBool False)) st (drop 4 cs)
               else if take 4 (c # cs) = js ''null'' then
                 parse_run (PAfter JNull) st (drop 3 cs)
               else
                 (case scan_number (c # cs) of
                    None \<Rightarrow> None
                  | Some (v, r) \<Rightarrow> parse_run (PAfter v) st r)
           | PKey acc \<Rightarrow>
               if c = 34 then
                 (case scan_string cs of
                    None \<Rightarrow> None
                  | Some (k, r) \<Rightarrow>
                      (case skip_ws r of
                         [] \<Rightarrow> None
                       | d # ds \<Rightarrow>
                           if d = 58 then parse_run PValue (FObj acc k # st) ds else None))
               else None
           | PAfter v \<Rightarrow>
               (case st of
                  [] \<Rightarrow> None
                | FArr acc # st' \<Rightarrow>
                    if c = 44 then parse_run PValue (FArr (v # acc) # st') cs
                    else if c = 93 then parse_run (PAfter (JArr (rev (v # acc)))) st' cs
                    else None
                | FObj acc k # st' \<Rightarrow>
                    if c = 44 then parse_run (PKey (obj_set k v acc)) st' cs
                    else if c = 125 then parse_run (PAfter (JObj (obj_set k v acc))) st' cs
                    else None)))"
  by pat_completeness auto

termination
  by (relation "measure (\<lambda>(m, st, s). length s)")
     (auto dest!: skip_ws_shorter scan_string_shorter scan_number_cons_shorter)

definition JSON_parse :: "jsstring \<Rightarrow> json option" where
  "JSON_parse s = parse_run PValue [] s"

declare parse_run.simps [simp del]

text \<open>
  A text that begins with a brace parses to an object or not at all. \<open>in_object\<close> says
  that the outermost open value is an object: the bottom of the stack is a frame of an
  object, or the stack is empty and the parser is reading a key of the outermost object or
  has just finished it.
\<close>

definition in_object :: "pmode \<Rightarrow> frame list \<Rightarrow> bool" where
  "in_object m st =
     (case st of
        [] \<Rightarrow> (case m of PValue \<Rightarrow> False | PAfter v \<Rightarrow> (case v of JObj ps \<Rightarrow> True | _ \<Rightarrow> False) | PKey acc \<Rightarrow> True)
      | f # fs \<Rightarrow> (case last st of FObj acc k \<Rightarrow> True | FArr acc \<Rightarrow> False))"

lemma in_object_nil [simp]:
  "in_object PValue [] = False" "in_object (PKey acc) [] = True"
  "in_object (PAfter (JObj ps)) [] = True"
  by (simp_all add: in_object_def)

lemma in_object_pop:
  "in_object m (f # st) \<Longrightarrow> st \<noteq> [] \<Longrightarrow> in_object m' st"
  by (cases st) (auto simp: in_object_def split: frame.splits)

lemma parse_run_object:
  "parse_run m st s = Some v \<Longrightarrow> in_object m st \<Longrightarrow> \<exists>ps. v = JObj ps"
proof (induction m st s rule: parse_run.induct)
  case (1 m st s)
  from "1.prems"(1) have run: "parse_run m st s = Some v" .
  show ?case
  proof (cases "skip_ws s")
    case Nil
    with run "1.prems"(2) show ?thesis
      by (subst (asm) parse_run.simps)
        (auto simp: in_object_def split: pmode.splits json.splits list.splits if_splits)
  next
    case (Cons c cs)
    show ?thesis
    proof (cases m)
      case PValue
      with "1.prems"(2) obtain f fs where st: "st = f # fs"
        by (cases st) (auto simp: in_object_def)
      have io: "\<And>m' g. in_object m' (g # st)" "\<And>m'. in_object m' st"
        using "1.prems"(2) st by (auto simp: in_object_def)
      from run "1.IH"(1-9)[OF Cons PValue] io show ?thesis
        apply (subst (asm) parse_run.simps)
        apply (simp only: Cons PValue list.case pmode.case)
        apply (auto split: if_splits list.splits option.splits prod.splits)
        done
    next
      case (PAfter x)
      from "1.prems"(2) PAfter have io: "\<And>m' f fs. st = f # fs \<Longrightarrow> fs \<noteq> [] \<Longrightarrow> in_object m' fs"
        and bottom: "\<And>f. st = [f] \<Longrightarrow> \<exists>acc k. f = FObj acc k"
        by (auto simp: in_object_def split: frame.splits list.splits)
      have popped: "\<And>f fs acc. st = f # fs \<Longrightarrow> in_object (PKey acc) fs"
        "\<And>f fs ps. st = f # fs \<Longrightarrow> in_object (PAfter (JObj ps)) fs"
        "\<And>f fs. st = f # fs \<Longrightarrow> in_object PValue (f # fs)"
        "\<And>fs acc w. st = FArr acc # fs \<Longrightarrow> in_object (PAfter w) fs"
        "\<And>fs acc acc'. st = FArr acc # fs \<Longrightarrow> in_object PValue (FArr acc' # fs)"
        using io bottom "1.prems"(2) by (case_tac fs; auto simp: in_object_def)+
      from run "1.IH"(10-13)[OF Cons PAfter] popped show ?thesis
        apply (subst (asm) parse_run.simps)
        apply (simp only: Cons PAfter list.case pmode.case)
        apply (auto split: if_splits list.splits frame.splits)
        done
    next
      case (PKey acc)
      have pushed: "\<And>k m'. in_object m' (FObj acc k # st)"
        using "1.prems"(2) PKey by (cases st) (auto simp: in_object_def split: frame.splits)
      from run pushed "1.IH"(14)[OF Cons PKey] show ?thesis
        apply (subst (asm) parse_run.simps)
        apply (simp only: Cons PKey list.case pmode.case)
        apply (auto split: if_splits list.splits option.splits prod.splits)
        done
    qed
  qed
qed

lemma JSON_parse_object: "JSON_parse (123 # s) = Some v \<Longrightarrow> \<exists>ps. v = JObj ps"
proof -
  assume p: "JSON_parse (123 # s) = Some v"
  have sk: "skip_ws (123 # s) = 123 # s"
    by (simp add: skip_ws_def json_ws_def)
  from p show ?thesis
    unfolding JSON_parse_def
    apply (subst (asm) parse_run.simps)
    apply (simp add: sk)
    apply (auto split: list.splits if_splits dest!: parse_run_object)
    done
qed



text \<open>
  Truthiness, as \<open>!x\<close> and \<open>x || y\<close> read a value; \<open>None\<close> is \<open>undefined\<close>, the value
  of a property that an object does not have. A number is falsy when it is zero as a double:
  its decimal value is zero, or at most \<open>2^-1075\<close> and so rounds to zero.
\<close>

definition rounds_to_zero :: "nat \<Rightarrow> int \<Rightarrow> bool" where
  "rounds_to_zero m e \<longleftrightarrow> m = 0 \<or> (e < 0 \<and> m * 2 ^ 1075 \<le> 10 ^ nat (- e))"

fun truthy :: "json option \<Rightarrow> bool" where
  "truthy None = False"
| "truthy (Some JNull) = False"
| "truthy (Some (JBool b)) = b"
| "truthy (Some (JNum n m e)) = (\<not> rounds_to_zero m e)"
| "truthy (Some (JStr s)) = (s \<noteq> [])"
| "truthy (Some (JArr vs)) = True"
| "truthy (Some (JObj ps)) = True"

type_synonym jsobj = "(jsstring \<times> json) list"

text \<open>
  The names that every object inherits from \<open>Object.prototype\<close>. A property read finds
  them where the object has no own property of the name: \<open>constructor\<close> reads the function
  \<open>Object\<close>, \<open>__proto__\<close> the prototype itself, the others a built-in method.
\<close>

definition object_prototype_names :: "jsstring list" where
  "object_prototype_names =
     map js [''constructor'', ''__defineGetter__'', ''__defineSetter__'', ''hasOwnProperty'',
       ''__lookupGetter__'', ''__lookupSetter__'', ''isPrototypeOf'', ''propertyIsEnumerable'',
       ''toString'', ''valueOf'', ''__proto__'', ''toLocaleString'']"

text \<open>
  \<open>get_prop\<close> reads an own property. The model reads the properties \<open>allow\<close>,
  \<open>highlight\<close> and \<open>reason\<close> with it, which are no names of \<open>Object.prototype\<close>.
\<close>

definition get_prop :: "jsobj \<Rightarrow> string \<Rightarrow> json option" where
  "get_prop obj k = map_of obj (js k)"

section \<open>The content moderator\<close>

text \<open>
  A comment, as the platform connectors normalise it. All fields are strings; the opaque
  field \<open>raw\<close> is never read and is left out. The field \<open>id\<close> of the source is \<open>cid\<close> here.
\<close>

record comment =
  cid :: jsstring
  platform :: jsstring
  author :: jsstring
  authorId :: jsstring
  message :: jsstring
  avatar :: jsstring
  timestamp :: jsstring

text \<open>
  The object literal \<^verbatim>\<open>{ allow, highlight, reason }\<close> that the moderator builds itself. A
  moderation result in general is whatever object \<open>moderate\<close> returns, so its type is
  \<open>jsobj\<close>; \<open>well_formed\<close> says that it has a boolean \<open>allow\<close>, a boolean \<open>highlight\<close> and
  a string \<open>reason\<close>.
\<close>

definition mk_result :: "bool \<Rightarrow> bool \<Rightarrow> string \<Rightarrow> jsobj" where
  "mk_result a h r = [(js ''allow'', JBool a), (js ''highlight'', JBool h), (js ''reason'', JStr (js r))]"

definition well_formed :: "jsobj \<Rightarrow> bool" where
  "well_formed r =
     ((case get_prop r ''allow'' of Some (JBool _) \<Rightarrow> True | _ \<Rightarrow> False) \<and>
      (case get_prop r ''highlight'' of Some (JBool _) \<Rightarrow> True | _ \<Rightarrow> False) \<and>
      (case get_prop r ''reason'' of Some (JStr _) \<Rightarrow> True | _ \<Rightarrow> False))"

text \<open>
  The state of a \<open>ContentModerator\<close>. The cache is a \<open>Map\<close> from the key string to the
  result. \<open>ruleCalls\<close> and \<open>chatCalls\<close> are not fields of the source: they count the runs of
  \<open>ruleCheck\<close> and the calls of \<open>ollama.chat\<close>, so that "is not invoked" can be stated.
\<close>

record content_moderator =
  model :: jsstring
  useAI :: bool
  strictMode :: bool
  cache :: "jsstring \<rightharpoonup> jsobj"
  aiAvailable :: bool
  ruleCalls :: nat
  chatCalls :: nat

text \<open>The constructor; an option is \<open>None\<close> when the caller leaves it out.\<close>

definition ContentModerator :: "jsstring option \<Rightarrow> bool option \<Rightarrow> bool option \<Rightarrow> content_moderator" where
  "ContentModerator opt_model opt_useAI opt_strictMode =
     \<lparr> model = (case opt_model of None \<Rightarrow> js ''llama3.2'' | Some m \<Rightarrow> if m = [] then js ''llama3.2'' else m),
       useAI = (opt_useAI \<noteq> Some False),
       strictMode = (case opt_strictMode of None \<Rightarrow> False | Some b \<Rightarrow> b),
       cache = Map.empty,
       aiAvailable = False,
       ruleCalls = 0,
       chatCalls = 0 \<rparr>"

text \<open>\<open>init\<close> probes the classifier once; \<open>listed\<close> says whether \<open>ollama.list()\<close> resolved.\<close>

definition moderator_init :: "bool \<Rightarrow> content_moderator \<Rightarrow> content_moderator" where
  "moderator_init listed md = md\<lparr>aiAvailable := listed\<rparr>"

text \<open>
  \<open>ruleCheck\<close>. The source reads \<^verbatim>\<open>comment.message || ''\<close>, which is the message itself
  for every string.
\<close>

definition str_includes :: "jsstring \<Rightarrow> nat \<Rightarrow> bool" where
  "str_includes s c \<longleftrightarrow> c \<in> set s"

definition ruleCheck :: "comment \<Rightarrow> jsobj" where
  "ruleCheck c =
     (let msg = message c in
      if list_ex (\<lambda>pattern. pattern msg) BLOCKED_PATTERNS then mk_result False False ''blocked pattern''
      else if list_ex (\<lambda>pattern. pattern msg) SPAM_PATTERNS then mk_result False False ''spam pattern''
      else if length (trim msg) < 2 then mk_result False False ''too short''
      else mk_result True (str_includes msg 63 \<and> length msg > 15) ''passed rules'')"

text \<open>
  The classifier is outside the program. A call of \<open>ollama.chat\<close> either throws (the
  service is down, the request times out, the response has no \<open>message.content\<close>) or
  replies with a text. What the call does is an argument of the model: \<open>aiCheck\<close> and
  \<open>moderate\<close> take the outcome that a call made now would have.

  A rejection can carry any value of the host language: an error object, \<open>null\<close> or
  \<open>undefined\<close>, or another value. They differ for the handler in \<open>moderate\<close>, which
  reads \<open>err.message\<close>: the read raises a \<open>TypeError\<close> for \<open>null\<close> and \<open>undefined\<close> and
  for no other value.
\<close>

datatype error = Error jsstring | SyntaxError | TypeError

datatype thrown = ErrorObject error | Nullish | OtherValue

datatype chat = ChatThrows thrown | ChatReplies jsstring

text \<open>
  \<^verbatim>\<open>text.match(/\{[^}]+\}/)\<close>: \<open>rx_match\<close> returns the text of the leftmost match, which
  is element 0 of the array that \<open>match\<close> returns for a pattern without the flag \<open>g\<close>.
\<close>

definition rx_braces :: matcher where
  "rx_braces = rx_seq (rx_char (\<lambda>c. c = 123)) (rx_seq (rx_plus (\<lambda>c. c \<noteq> 125)) (rx_char (\<lambda>c. c = 125)))"

definition rx_match :: "matcher \<Rightarrow> jsstring \<Rightarrow> jsstring option" where
  "rx_match r s =
     (case filter (\<lambda>i. r s i \<noteq> []) [0..<Suc (length s)] of
        [] \<Rightarrow> None
      | i # _ \<Rightarrow> Some (take (hd (r s i) - i) (drop i s)))"

text \<open>
  \<open>aiCheck\<close>. What \<open>JSON.parse\<close> returns is returned as it is. The matched text begins
  with a brace, so a successful parse gives an object (\<open>aiCheck_parses_object\<close> below) and
  the last case stands for the \<open>SyntaxError\<close> alone.
\<close>

definition aiCheck :: "comment \<Rightarrow> chat \<Rightarrow> thrown + jsobj" where
  "aiCheck c reply =
     (case reply of
        ChatThrows e \<Rightarrow> Inl e
      | ChatReplies content \<Rightarrow>
          (let txt = trim content in
           case rx_match rx_braces txt of
             Some jsonMatch \<Rightarrow>
               (case JSON_parse jsonMatch of
                  Some (JObj ps) \<Rightarrow> Inr ps
                | _ \<Rightarrow> Inl (ErrorObject SyntaxError))
           | None \<Rightarrow> Inr (mk_result True False ''ai parse failed'')))"

lemma rx_braces_start:
  "e \<in> set (rx_braces s i) \<Longrightarrow> i < length s \<and> s ! i = 123 \<and> i < e"
  by (auto simp: rx_braces_def rx_seq_def rx_char_def rx_plus_def rx_many_def chr_at_def Let_def
      split: option.splits if_splits)

lemma rx_match_braces:
  assumes "rx_match rx_braces s = Some m"
  shows "\<exists>t. m = 123 # t"
proof -
  from assms obtain i is' where f: "filter (\<lambda>i. rx_braces s i \<noteq> []) [0..<Suc (length s)] = i # is'"
    and m: "m = take (hd (rx_braces s i) - i) (drop i s)"
    by (auto simp: rx_match_def split: list.splits)
  from f have "i \<in> set (filter (\<lambda>i. rx_braces s i \<noteq> []) [0..<Suc (length s)])" by simp
  then have ne: "rx_braces s i \<noteq> []" unfolding set_filter by blast
  then have "hd (rx_braces s i) \<in> set (rx_braces s i)" by simp
  from rx_braces_start[OF this] have i: "i < length s" "s ! i = 123" "i < hd (rx_braces s i)"
    by simp_all
  then obtain n where n: "hd (rx_braces s i) - i = Suc n"
    by (cases "hd (rx_braces s i) - i") auto
  from i(1) have "drop i s = s ! i # drop (Suc i) s"
    by (simp add: Cons_nth_drop_Suc)
  with m n i(2) show ?thesis by simp
qed

lemma aiCheck_parses_object:
  "rx_match rx_braces txt = Some jsonMatch \<Longrightarrow> JSON_parse jsonMatch = Some v \<Longrightarrow> \<exists>ps. v = JObj ps"
  using rx_match_braces JSON_parse_object by blast

text \<open>The cache key is the template string \<^verbatim>\<open>`${comment.author}:${comment.message}`\<close>.\<close>

definition cacheKey :: "comment \<Rightarrow> jsstring" where
  "cacheKey c = author c @ js '':'' @ message c"

text \<open>
  \<open>moderate\<close> returns the result, or the error with which it raises, and the state in
  which it leaves the moderator. The \<open>catch\<close> around \<open>aiCheck\<close> is the branch \<open>Inl\<close>: the
  handler logs \<open>err.message\<close> and falls through to the rule result. For \<open>null\<close> and
  \<open>undefined\<close> the read of \<open>err.message\<close> raises inside the handler, and \<open>moderate\<close>
  raises with it, before anything is written to the cache.
\<close>

definition cache_set :: "jsstring \<Rightarrow> jsobj \<Rightarrow> content_moderator \<Rightarrow> content_moderator" where
  "cache_set k r md = md\<lparr>cache := (cache md)(k \<mapsto> r)\<rparr>"

definition moderate ::
  "chat \<Rightarrow> content_moderator \<Rightarrow> comment \<Rightarrow> (error + jsobj) \<times> content_moderator" where
  "moderate reply md c =
     (case cache md (cacheKey c) of
        Some cached \<Rightarrow> (Inr cached, md)
      | None \<Rightarrow>
          (let ruleResult = ruleCheck c;
               md1 = md\<lparr>ruleCalls := ruleCalls md + 1\<rparr>
           in if \<not> truthy (get_prop ruleResult ''allow'')
              then (Inr ruleResult, cache_set (cacheKey c) ruleResult md1)
              else if useAI md1 \<and> aiAvailable md1 then
                (let md2 = md1\<lparr>chatCalls := chatCalls md1 + 1\<rparr> in
                 case aiCheck c reply of
                   Inr aiResult \<Rightarrow> (Inr aiResult, cache_set (cacheKey c) aiResult md2)
                 | Inl err \<Rightarrow>
                     (case err of
                        Nullish \<Rightarrow> (Inl TypeError, md2)
                      | _ \<Rightarrow> (Inr ruleResult, cache_set (cacheKey c) ruleResult md2)))
              else (Inr ruleResult, cache_set (cacheKey c) ruleResult md1)))"

definition clearCache :: "content_moderator \<Rightarrow> content_moderator" where
  "clearCache md = md\<lparr>cache := Map.empty\<rparr>"

section \<open>The feed manager\<close>

text \<open>
  An approved comment in the feed: the comment (the spread \<^verbatim>\<open>...comment\<close>) with the flags
  that the feed manager adds. \<open>highlighted\<close> holds \<^verbatim>\<open>result.highlight || false\<close>, which is
  whatever truthy value the result carries. \<open>pinned\<close>, absent until \<open>pin\<close> sets it, is
  \<open>False\<close> until then.
\<close>

record enriched =
  base :: comment
  highlighted :: json
  approvedAt :: jsstring
  pinned :: bool

text \<open>
  The counter of a platform is a number, unless the platform is named like a property of
  \<open>Object.prototype\<close>: \<open>byPlatform\<close> is an object literal, the read
  \<^verbatim>\<open>byPlatform[platform] || 0\<close> then finds the inherited function, and \<open>+ 1\<close> makes a
  string of it. \<open>NotCount\<close> stands for such a string.
\<close>

datatype tally = Count nat | NotCount

record stats =
  total :: nat
  approved :: nat
  blocked :: nat
  byPlatform :: "jsstring \<rightharpoonup> tally"

text \<open>
  The fields of the configuration that the modelled methods read. \<open>maxFeedSize\<close> is a
  number of the host language; the entry point reads it with \<open>parseInt\<close>, so it is an
  integer and can be negative.
\<close>

record feed_config =
  maxFeedSize :: int
  vmixInput :: "jsstring option"
  pushToVmix :: bool
  moderationEnabled :: bool
  cfg_strictMode :: bool

text \<open>The options a caller may pass to the constructor; \<open>None\<close> is an option left out.\<close>

record feed_options =
  opt_maxFeedSize :: "int option"
  opt_vmixInput :: "jsstring option"
  opt_pushToVmix :: "bool option"
  opt_moderationEnabled :: "bool option"
  opt_strictMode :: "bool option"

text \<open>
  The events the manager emits, in order, and the pushes of a single comment to the
  external sink, which the log records as attempts: the sink may fail, and the failure is
  swallowed.
\<close>

datatype event =
    CommentBlocked comment "json option"
  | CommentApproved enriched
  | CommentHighlighted enriched
  | CommentPinned enriched
  | FeedCleared
  | SinkPush enriched

record feed_manager =
  config :: feed_config
  feed :: "enriched list"
  stats :: stats
  moderator :: content_moderator
  emitted :: "event list"

text \<open>
  The constructor. The defaults come first and the spread \<^verbatim>\<open>...config\<close> comes last, so
  an option that the caller passes always wins, also \<open>maxFeedSize: 0\<close>.
\<close>

definition empty_stats :: stats where
  "empty_stats = \<lparr> total = 0, approved = 0, blocked = 0, byPlatform = Map.empty \<rparr>"

definition FeedManager :: "feed_options \<Rightarrow> feed_manager" where
  "FeedManager opts =
     (let cfg = \<lparr> maxFeedSize = (case opt_maxFeedSize opts of None \<Rightarrow> 50 | Some n \<Rightarrow> n),
                  vmixInput = opt_vmixInput opts,
                  pushToVmix = (case opt_pushToVmix opts of None \<Rightarrow> True | Some b \<Rightarrow> b),
                  moderationEnabled = (case opt_moderationEnabled opts of None \<Rightarrow> True | Some b \<Rightarrow> b),
                  cfg_strictMode = (case opt_strictMode opts of None \<Rightarrow> False | Some b \<Rightarrow> b) \<rparr>
      in \<lparr> config = cfg,
           feed = [],
           stats = empty_stats,
           moderator = ContentModerator None (Some (moderationEnabled cfg)) (Some (cfg_strictMode cfg)),
           emitted = [] \<rparr>)"

text \<open>\<open>init\<close>, as far as the state goes: the moderator probes the classifier.\<close>

definition feed_init :: "bool \<Rightarrow> feed_manager \<Rightarrow> feed_manager" where
  "feed_init listed fm = fm\<lparr>moderator := moderator_init listed (moderator fm)\<rparr>"

text \<open>
  \<^verbatim>\<open>xs.slice(0, end)\<close> for an integer \<open>end\<close>: a negative \<open>end\<close> counts from the end of
  the array.
\<close>

definition slice0 :: "'a list \<Rightarrow> int \<Rightarrow> 'a list" where
  "slice0 xs e = (if e < 0 then take (nat (int (length xs) + e)) xs else take (nat e) xs)"

definition emit :: "event \<Rightarrow> feed_manager \<Rightarrow> feed_manager" where
  "emit ev fm = fm\<lparr>emitted := emitted fm @ [ev]\<rparr>"

definition pushSingleToVmix :: "enriched \<Rightarrow> feed_manager \<Rightarrow> feed_manager" where
  "pushSingleToVmix e fm =
     (case vmixInput (config fm) of
        None \<Rightarrow> fm
      | Some inp \<Rightarrow> if inp = [] then fm else emit (SinkPush e) fm)"

definition bump_stats :: "jsstring \<Rightarrow> stats \<Rightarrow> stats" where
  "bump_stats p st =
     st\<lparr> total := total st + 1,
         byPlatform :=
           (case byPlatform st p of
              Some (Count n) \<Rightarrow> (byPlatform st)(p \<mapsto> Count (n + 1))
            | Some NotCount \<Rightarrow> (byPlatform st)(p \<mapsto> NotCount)
            | None \<Rightarrow>
                if p = js ''__proto__'' then byPlatform st
                else if List.member object_prototype_names p then (byPlatform st)(p \<mapsto> NotCount)
                else (byPlatform st)(p \<mapsto> Count 1)) \<rparr>"

text \<open>
  \<open>addComment\<close>, run to completion: it returns the error with which the call rejects, if
  any, and the state it leaves. \<open>now\<close> is the time stamp that \<open>new Date()\<close> gives and
  \<open>reply\<close> what a call of the classifier would do during this call. The source suspends
  twice, at the \<open>await\<close> of \<open>moderate\<close> and at the \<open>await\<close> of the push at the end; from
  the result of \<open>moderate\<close> to the trimmed feed it runs without suspension. When
  \<open>moderate\<close> raises, the call rejects there, after the counters of the first two
  statements have been written. The model takes the calls one after the other.
\<close>

definition addComment ::
  "jsstring \<Rightarrow> chat \<Rightarrow> feed_manager \<Rightarrow> comment \<Rightarrow> error option \<times> feed_manager" where
  "addComment now reply fm c =
     (let fm1 = fm\<lparr>stats := bump_stats (platform c) (stats fm)\<rparr>;
          (outcome, md) = moderate reply (moderator fm1) c;
          fm2 = fm1\<lparr>moderator := md\<rparr>
      in case outcome of
           Inl err \<Rightarrow> (Some err, fm2)
         | Inr result \<Rightarrow>
             if \<not> truthy (get_prop result ''allow'') then
               (None, emit (CommentBlocked c (get_prop result ''reason''))
                  (fm2\<lparr>stats := (stats fm2)\<lparr>blocked := blocked (stats fm2) + 1\<rparr>\<rparr>))
             else
               (let fm3 = fm2\<lparr>stats := (stats fm2)\<lparr>approved := approved (stats fm2) + 1\<rparr>\<rparr>;
                    e = \<lparr> base = c,
                          highlighted = (if truthy (get_prop result ''highlight'')
                                         then the (get_prop result ''highlight'') else JBool False),
                          approvedAt = now,
                          pinned = False \<rparr>;
                    unshifted = e # feed fm3;
                    fm4 = fm3\<lparr>feed := (if int (length unshifted) > maxFeedSize (config fm3)
                                          then slice0 unshifted (maxFeedSize (config fm3))
                                          else unshifted)\<rparr>;
                    fm5 = emit (CommentApproved e) fm4;
                    fm6 = (if truthy (Some (highlighted e)) then emit (CommentHighlighted e) fm5 else fm5)
                in (None, if truthy (Some (highlighted e)) \<and> pushToVmix (config fm6)
                          then pushSingleToVmix e fm6 else fm6)))"

definition getFeed :: "int \<Rightarrow> feed_manager \<Rightarrow> enriched list" where
  "getFeed limit fm = slice0 (feed fm) limit"

definition clear :: "feed_manager \<Rightarrow> feed_manager" where
  "clear fm = emit FeedCleared (fm\<lparr>feed := [], stats := empty_stats\<rparr>)"

text \<open>\<open>highlight\<close> marks the first comment of the feed that has the id.\<close>

fun mark_first :: "jsstring \<Rightarrow> enriched list \<Rightarrow> enriched list" where
  "mark_first i [] = []"
| "mark_first i (e # es) =
     (if cid (base e) = i then e\<lparr>highlighted := JBool True\<rparr> # es else e # mark_first i es)"

definition highlight :: "jsstring \<Rightarrow> feed_manager \<Rightarrow> feed_manager" where
  "highlight commentId fm =
     (case find (\<lambda>c. cid (base c) = commentId) (feed fm) of
        None \<Rightarrow> fm
      | Some c \<Rightarrow>
          (let c' = c\<lparr>highlighted := JBool True\<rparr>;
               fm1 = fm\<lparr>feed := mark_first commentId (feed fm)\<rparr>
           in pushSingleToVmix c' (emit (CommentHighlighted c') fm1)))"

text \<open>
  \<open>pin\<close>: \<open>findIndex\<close>, \<open>splice(idx, 1)\<close>, the flag, \<open>unshift\<close>. \<open>find_index\<close> is
  \<open>None\<close> where \<open>findIndex\<close> returns \<open>-1\<close>.
\<close>

fun find_index :: "('a \<Rightarrow> bool) \<Rightarrow> 'a list \<Rightarrow> nat option" where
  "find_index P [] = None"
| "find_index P (x # xs) = (if P x then Some 0 else map_option Suc (find_index P xs))"

definition pin :: "jsstring \<Rightarrow> feed_manager \<Rightarrow> feed_manager" where
  "pin commentId fm =
     (case find_index (\<lambda>c. cid (base c) = commentId) (feed fm) of
        None \<Rightarrow> fm
      | Some idx \<Rightarrow>
          (let c = (feed fm ! idx)\<lparr>pinned := True\<rparr>;
               spliced = take idx (feed fm) @ drop (Suc idx) (feed fm)
           in emit (CommentPinned c) (fm\<lparr>feed := c # spliced\<rparr>)))"

text \<open>
  A sequence of calls of \<open>addComment\<close>, each with its time stamp and classifier outcome.
  A call that rejects leaves its state to the calls after it.
\<close>

type_synonym call = "jsstring \<times> chat \<times> comment"

definition addComment_call :: "feed_manager \<Rightarrow> call \<Rightarrow> feed_manager" where
  "addComment_call fm k = (case k of (now, reply, c) \<Rightarrow> snd (addComment now reply fm c))"

definition addComments :: "feed_manager \<Rightarrow> call list \<Rightarrow> feed_manager" where
  "addComments fm ks = foldl addComment_call fm ks"



section \<open>The platform manager\<close>

text \<open>
  The connectors are outside the manager: it constructs them, attaches listeners and calls
  \<open>start\<close> and \<open>stop\<close>. An adapter is its class and its configuration (plain data).
  \<open>started\<close> is no field of the source: it records that the last \<open>start\<close> of the adapter
  resolved and no \<open>stop\<close> has resolved since.
\<close>

datatype adapter_class = YouTubeChat | TwitchChat | TikTokChat

record adapter =
  cls :: adapter_class
  acfg :: jsobj
  started :: bool

text \<open>
  \<open>PLATFORMS\<close> is an object literal with the three keys, and \<^verbatim>\<open>PLATFORMS[name]\<close> is a
  property read: a name that is no key of the literal but a property of \<open>Object.prototype\<close>
  reads that property, a function or, for \<open>__proto__\<close>, the prototype itself. All of them
  are truthy. \<open>constructor\<close> reads \<open>Object\<close>, which \<open>new\<close> can call; the others are no
  constructors.
\<close>

datatype lookup = Adapter adapter_class | ObjectFunction | NoConstructor

definition PLATFORMS :: "jsstring \<Rightarrow> lookup option" where
  "PLATFORMS name =
     (if name = js ''youtube'' then Some (Adapter YouTubeChat)
      else if name = js ''twitch'' then Some (Adapter TwitchChat)
      else if name = js ''tiktok'' then Some (Adapter TikTokChat)
      else if name = js ''constructor'' then Some ObjectFunction
      else if List.member object_prototype_names name then Some NoConstructor
      else None)"

text \<open>
  The events of the manager. An error event carries the value that was thrown or emitted,
  whatever it is. Its platform is \<open>None\<close> where the source would read an index beyond the
  keys.
\<close>

datatype pm_event =
    PlatformError "jsstring option" thrown
  | CommentEvent comment
  | DebugEvent jsstring

text \<open>The registry is a \<open>Map\<close>: the entries in insertion order, each name once.\<close>

record platform_manager =
  platforms :: "(jsstring \<times> adapter) list"
  pm_events :: "pm_event list"

definition PlatformManager :: platform_manager where
  "PlatformManager = \<lparr> platforms = [], pm_events = [] \<rparr>"

definition pm_emit :: "pm_event \<Rightarrow> platform_manager \<Rightarrow> platform_manager" where
  "pm_emit ev m = m\<lparr>pm_events := pm_events m @ [ev]\<rparr>"

definition list_names :: "platform_manager \<Rightarrow> jsstring list" where
  "list_names m = map fst (platforms m)"

text \<open>
  The listeners that \<open>addPlatform\<close> attaches forward what an adapter emits: a comment as it
  is, an error as an error event tagged with the name, a debug message with the name in
  front. They stay attached as long as the adapter is registered; \<open>removePlatform\<close> detaches
  them when it deletes the entry.
\<close>

datatype adapter_event = EmitsComment comment | EmitsError thrown | EmitsDebug jsstring

definition forwarded :: "jsstring \<Rightarrow> adapter_event \<Rightarrow> pm_event" where
  "forwarded name ev =
     (case ev of
        EmitsComment c \<Rightarrow> CommentEvent c
      | EmitsError err \<Rightarrow> PlatformError (Some name) err
      | EmitsDebug msg \<Rightarrow> DebugEvent (js ''['' @ name @ js ''] '' @ msg))"

definition adapter_emits :: "jsstring \<Rightarrow> adapter_event \<Rightarrow> platform_manager \<Rightarrow> platform_manager" where
  "adapter_emits name ev m =
     (case map_of (platforms m) name of
        None \<Rightarrow> m
      | Some a \<Rightarrow> pm_emit (forwarded name ev) m)"

text \<open>
  What a call of \<open>start\<close> or \<open>stop\<close> of an adapter does is given from outside, for each
  name: the events that the adapter emits during the call, in order, and how the call ends,
  \<open>None\<close> when it resolves and the thrown value when it throws. The adapters of the
  repository emit while they start: \<open>YouTubeChat\<close> and \<open>TwitchChat\<close> a debug message when
  they have started, and \<open>TikTokChat\<close> an error, after which its \<open>start\<close> resolves, when the
  connector package is missing or the connection fails.
\<close>

record world =
  start_of :: "jsstring \<Rightarrow> adapter_event list \<times> thrown option"
  stop_of :: "jsstring \<Rightarrow> adapter_event list \<times> thrown option"

definition set_started :: "jsstring \<Rightarrow> bool \<Rightarrow> platform_manager \<Rightarrow> platform_manager" where
  "set_started name b m =
     m\<lparr>platforms := map (\<lambda>(n, a). if n = name then (n, a\<lparr>started := b\<rparr>) else (n, a)) (platforms m)\<rparr>"

definition emit_all :: "jsstring \<Rightarrow> adapter_event list \<Rightarrow> platform_manager \<Rightarrow> platform_manager" where
  "emit_all name evs m = foldl (\<lambda>m' ev. adapter_emits name ev m') m evs"

text \<open>
  \<open>startPlatform\<close> throws only for a name that is not registered; what \<open>start\<close> throws is
  caught and emitted, after the events of the adapter.
\<close>

definition startPlatform :: "world \<Rightarrow> jsstring \<Rightarrow> platform_manager \<Rightarrow> error option \<times> platform_manager" where
  "startPlatform w name m =
     (case map_of (platforms m) name of
        None \<Rightarrow> (Some (Error (js ''Platform not added: '' @ name)), m)
      | Some entry \<Rightarrow>
          (case start_of w name of
             (evs, None) \<Rightarrow> (None, set_started name True (emit_all name evs m))
           | (evs, Some err) \<Rightarrow> (None, pm_emit (PlatformError (Some name) err) (emit_all name evs m))))"

definition stopPlatform :: "world \<Rightarrow> jsstring \<Rightarrow> platform_manager \<Rightarrow> platform_manager" where
  "stopPlatform w name m =
     (case map_of (platforms m) name of
        None \<Rightarrow> m
      | Some entry \<Rightarrow>
          (case stop_of w name of
             (evs, None) \<Rightarrow> set_started name False (emit_all name evs m)
           | (evs, Some err) \<Rightarrow> pm_emit (PlatformError (Some name) err) (emit_all name evs m)))"

definition removePlatform :: "world \<Rightarrow> jsstring \<Rightarrow> platform_manager \<Rightarrow> platform_manager" where
  "removePlatform w name m =
     (let m1 = stopPlatform w name m
      in m1\<lparr>platforms := filter (\<lambda>(n, a). n \<noteq> name) (platforms m1)\<rparr>)"

text \<open>
  \<open>addPlatform\<close> returns the error it throws, if any, and the state it leaves. The
  configuration is plain data without a method \<open>on\<close>, so for \<open>Object\<close> the call
  \<^verbatim>\<open>instance.on(...)\<close> throws a \<open>TypeError\<close>, as \<open>new\<close> does for a value that is no
  constructor.
\<close>

definition addPlatform ::
  "world \<Rightarrow> jsstring \<Rightarrow> jsobj \<Rightarrow> bool \<Rightarrow> platform_manager \<Rightarrow> error option \<times> platform_manager" where
  "addPlatform w name cfg autoStart m =
     (case PLATFORMS name of
        None \<Rightarrow> (Some (Error (js ''Unknown platform: '' @ name)), m)
      | Some Cls \<Rightarrow>
          (let m1 = (if name \<in> set (list_names m) then removePlatform w name m else m)
           in case Cls of
                Adapter k \<Rightarrow>
                  (let inst = \<lparr> cls = k, acfg = cfg, started = False \<rparr>;
                       m2 = m1\<lparr>platforms := platforms m1 @ [(name, inst)]\<rparr>
                   in if autoStart then startPlatform w name m2 else (None, m2))
              | ObjectFunction \<Rightarrow> (Some TypeError, m1)
              | NoConstructor \<Rightarrow> (Some TypeError, m1)))"

text \<open>
  \<open>startAll\<close>: \<open>Promise.allSettled\<close> over \<open>startPlatform\<close> for every key, then one more
  error event for every rejected promise. The starts are modelled one after the other, in
  the order of the keys; the source runs them concurrently, which can change the order of
  the events of different adapters and not the events themselves.
\<close>

fun start_each :: "world \<Rightarrow> jsstring list \<Rightarrow> platform_manager \<Rightarrow> error option list \<times> platform_manager" where
  "start_each w [] m = ([], m)"
| "start_each w (n # ns) m =
     (case startPlatform w n m of
        (r, m1) \<Rightarrow> (case start_each w ns m1 of (rs, m2) \<Rightarrow> (r # rs, m2)))"

definition key_at :: "platform_manager \<Rightarrow> nat \<Rightarrow> jsstring option" where
  "key_at m i = (if i < length (platforms m) then Some (list_names m ! i) else None)"

fun report_rejected :: "nat \<Rightarrow> error option list \<Rightarrow> platform_manager \<Rightarrow> platform_manager" where
  "report_rejected i [] m = m"
| "report_rejected i (None # rs) m = report_rejected (Suc i) rs m"
| "report_rejected i (Some reason # rs) m =
     report_rejected (Suc i) rs (pm_emit (PlatformError (key_at m i) (ErrorObject reason)) m)"

definition startAll :: "world \<Rightarrow> platform_manager \<Rightarrow> platform_manager" where
  "startAll w m = (case start_each w (list_names m) m of (results, m1) \<Rightarrow> report_rejected 0 results m1)"

definition is_started :: "platform_manager \<Rightarrow> jsstring \<Rightarrow> bool" where
  "is_started m name = (case map_of (platforms m) name of None \<Rightarrow> False | Some a \<Rightarrow> started a)"

text \<open>
  The events that the start of an adapter adds, and those of a list of adapters in order;
  the error events among a list of events; and an adapter that emits no error of its own
  while it starts.
\<close>

definition start_events :: "world \<Rightarrow> jsstring \<Rightarrow> pm_event list" where
  "start_events w n =
     map (forwarded n) (fst (start_of w n))
     @ (case snd (start_of w n) of None \<Rightarrow> [] | Some e \<Rightarrow> [PlatformError (Some n) e])"

definition errors_in :: "pm_event list \<Rightarrow> pm_event list" where
  "errors_in evs = filter (\<lambda>ev. case ev of PlatformError p e \<Rightarrow> True | _ \<Rightarrow> False) evs"

definition quiet_start :: "world \<Rightarrow> jsstring \<Rightarrow> bool" where
  "quiet_start w n = list_all (\<lambda>ev. case ev of EmitsError e \<Rightarrow> False | _ \<Rightarrow> True) (fst (start_of w n))"

section \<open>Concrete inputs\<close>

text \<open>The comments and options of the scenarios, and of the instances given below.\<close>

definition mk_comment :: "string \<Rightarrow> string \<Rightarrow> string \<Rightarrow> string \<Rightarrow> comment" where
  "mk_comment i p a m =
     \<lparr> cid = js i, platform = js p, author = js a, authorId = [], message = js m,
       avatar = [], timestamp = [] \<rparr>"

definition mk_options :: "int option \<Rightarrow> bool option \<Rightarrow> feed_options" where
  "mk_options n ai =
     \<lparr> opt_maxFeedSize = n, opt_vmixInput = None, opt_pushToVmix = None,
       opt_moderationEnabled = ai, opt_strictMode = None \<rparr>"

definition c1 :: comment where
  "c1 = mk_comment ''c1'' ''youtube'' ''ChurchTech42'' ''Great production quality today!''"

definition c2 :: comment where
  "c2 = mk_comment ''c2'' ''twitch'' ''esports_fan'' ''Can we get a replay of that last round?''"

definition c3 :: comment where
  "c3 = mk_comment ''c3'' ''tiktok'' ''viewer123'' ''This is so cool how do you do this''"

definition c4 :: comment where
  "c4 = mk_comment ''c4'' ''youtube'' ''TechDirector'' ''NDI is a game changer for remote production''"

definition scenario_c :: comment where
  "scenario_c = mk_comment ''c'' ''youtube'' ''StreamNerd'' ''What switcher are you using?''"

definition scenario_a :: comment where
  "scenario_a = mk_comment ''a'' ''twitch'' ''spambot'' ''BUY FOLLOWERS NOW CLICK HERE''"

text \<open>A reply of the classifier is a text; \<open>quoted\<close> puts a word in double quotes.\<close>

definition quoted :: "string \<Rightarrow> jsstring" where
  "quoted w = [34] @ js w @ [34]"

definition reply_allow :: chat where
  "reply_allow = ChatReplies (js ''Sure. {'' @ quoted ''allow'' @ js '': true, '' @ quoted ''highlight''
     @ js '': false, '' @ quoted ''reason'' @ js '': '' @ quoted ''fine'' @ js ''} Done.'')"


definition collide_a :: comment where
  "collide_a = mk_comment ''k1'' ''twitch'' ''bob'' '':aaaaaaaaaaa''"

definition collide_b :: comment where
  "collide_b = mk_comment ''k2'' ''twitch'' ''bob:'' ''aaaaaaaaaaa''"

definition reply_malformed :: chat where
  "reply_malformed = ChatReplies (js ''{'' @ quoted ''allow'' @ js '':'' @ quoted ''no'' @ js ''}'')"

text \<open>The classifier is down; and the classifier rejects with \<open>null\<close>.\<close>

definition down :: chat where
  "down = ChatThrows (ErrorObject (Error (js ''fetch failed'')))"


definition stamp :: jsstring where
  "stamp = js ''2026-01-01T00:00:00.000Z''"

definition call_of :: "comment \<Rightarrow> call" where
  "call_of c = (stamp, down, c)"


definition md_ai :: content_moderator where
  "md_ai = moderator_init True (ContentModerator None None None)"

text \<open>
  The three connectors, registered without starting them (\<open>silent\<close>: nothing is emitted
  and nothing thrown), and what their starts do: \<open>YouTubeChat\<close> throws for want of a video
  id and the other two start and say so; and the same with \<open>TikTokChat\<close> failing to
  connect, which it reports by an error event while its \<open>start\<close> resolves.
\<close>

definition silent :: world where
  "silent = \<lparr> start_of = (\<lambda>n. ([], None)), stop_of = (\<lambda>n. ([], None)) \<rparr>"

definition three_platforms :: platform_manager where
  "three_platforms =
     snd (addPlatform silent (js ''tiktok'') [(js ''username'', JStr (js ''somestreamer''))] False
       (snd (addPlatform silent (js ''twitch'') [(js ''channels'', JArr [JStr (js ''shroud'')])] False
         (snd (addPlatform silent (js ''youtube'') [] False PlatformManager)))))"

definition no_video :: thrown where
  "no_video = ErrorObject (Error (js ''Either videoId or liveChatId is required''))"

definition connect_failed :: thrown where
  "connect_failed = ErrorObject (Error (js ''TikTok connect failed: LIVE has ended''))"

definition youtube_throws :: world where
  "youtube_throws =
     \<lparr> start_of = (\<lambda>n.
         if n = js ''youtube'' then ([], Some no_video)
         else if n = js ''twitch'' then ([EmitsDebug (js ''Twitch chat started for channels: shroud'')], None)
         else ([EmitsDebug (js ''TikTok connected to somestreamer (7)'')], None)),
       stop_of = (\<lambda>n. ([], None)) \<rparr>"

definition tiktok_fails_too :: world where
  "tiktok_fails_too =
     \<lparr> start_of = (\<lambda>n.
         if n = js ''youtube'' then ([], Some no_video)
         else if n = js ''twitch'' then ([EmitsDebug (js ''Twitch chat started for channels: shroud'')], None)
         else ([EmitsError connect_failed], None)),
       stop_of = (\<lambda>n. ([], None)) \<rparr>"

text \<open>
  Scenario D: \<open>maxFeedSize = 2\<close>, the classifier disabled, and the comments \<open>c1\<close>, \<open>c2\<close>,
  \<open>c3\<close> added in this order. \<open>enrich\<close> is the entry of the feed for a comment approved at
  the time stamp of \<open>call_of\<close>.
\<close>

definition fm_d :: feed_manager where
  "fm_d = addComments (feed_init False (FeedManager (mk_options (Some 2) (Some False))))
            [call_of c1, call_of c2, call_of c3]"

definition enrich :: "comment \<Rightarrow> bool \<Rightarrow> bool \<Rightarrow> enriched" where
  "enrich c h p = \<lparr> base = c, highlighted = JBool h, approvedAt = stamp, pinned = p \<rparr>"

section \<open>The bound on the feed\<close>

lemma emit_fields [simp]:
  "config (emit ev fm) = config fm" "feed (emit ev fm) = feed fm"
  "stats (emit ev fm) = stats fm" "moderator (emit ev fm) = moderator fm"
  by (simp_all add: emit_def)

lemma pushSingleToVmix_fields [simp]:
  "config (pushSingleToVmix e fm) = config fm" "feed (pushSingleToVmix e fm) = feed fm"
  "stats (pushSingleToVmix e fm) = stats fm" "moderator (pushSingleToVmix e fm) = moderator fm"
  by (simp_all add: pushSingleToVmix_def split: option.splits)

lemma addComment_config [simp]: "config (snd (addComment now reply fm c)) = config fm"
  by (simp add: addComment_def Let_def split: prod.splits sum.splits)

lemma addComments_snoc:
  "addComments fm (ks @ [(now, reply, c)]) = snd (addComment now reply (addComments fm ks) c)"
  by (simp add: addComments_def addComment_call_def)

lemma addComments_config [simp]: "config (addComments fm ks) = config fm"
proof (induction ks rule: rev_induct)
  case Nil
  then show ?case by (simp add: addComments_def)
next
  case (snoc k ks)
  obtain now reply c where k: "k = (now, reply, c)" by (cases k) auto
  from snoc show ?case unfolding k addComments_snoc by simp
qed

lemma slice0_length: "0 \<le> e \<Longrightarrow> int (length (slice0 xs e)) \<le> e"
  by (simp add: slice0_def)

lemma addComment_bounded:
  assumes "0 \<le> maxFeedSize (config fm)"
    and "int (length (feed fm)) \<le> maxFeedSize (config fm)"
  shows "int (length (feed (snd (addComment now reply fm c)))) \<le> maxFeedSize (config fm)"
proof (cases "moderate reply (moderator fm) c")
  case (Pair outcome md)
  show ?thesis
  proof (cases outcome)
    case (Inl err)
    with Pair assms(2) show ?thesis
      by (simp add: addComment_def Let_def)
  next
    case (Inr result)
    show ?thesis
    proof (cases "truthy (get_prop result ''allow'')")
      case False
      with Pair Inr assms(2) show ?thesis
        by (simp add: addComment_def Let_def)
    next
      case True
      with Pair Inr assms(1) show ?thesis
        by (simp add: addComment_def Let_def slice0_length)
    qed
  qed
qed

lemma addComments_bounded:
  "0 \<le> maxFeedSize (config fm) \<Longrightarrow> int (length (feed fm)) \<le> maxFeedSize (config fm) \<Longrightarrow>
   int (length (feed (addComments fm ks))) \<le> maxFeedSize (config fm)"
proof (induction ks rule: rev_induct)
  case Nil
  then show ?case by (simp add: addComments_def)
next
  case (snoc k ks)
  obtain now reply c where k: "k = (now, reply, c)" by (cases k) auto
  from snoc addComment_bounded[of "addComments fm ks" now reply c] show ?case
    unfolding k addComments_snoc by simp
qed

lemma FeedManager_feed [simp]: "feed (feed_init listed (FeedManager opts)) = []"
  by (simp add: feed_init_def FeedManager_def Let_def)

lemma FeedManager_maxFeedSize [simp]:
  "maxFeedSize (config (feed_init listed (FeedManager opts))) =
     (case opt_maxFeedSize opts of None \<Rightarrow> 50 | Some n \<Rightarrow> n)"
  by (simp add: feed_init_def FeedManager_def Let_def)

text \<open>
  C1. For a \<open>maxFeedSize\<close> that is not negative, and for the default of 50 when none is
  configured, the feed is never longer than \<open>maxFeedSize\<close>: after each call of a sequence
  of calls of \<open>addComment\<close> on a new manager, whatever the comments and whatever the
  classifier does, \<open>length feed \<le> maxFeedSize\<close>.
\<close>

theorem feed_bounded:
  assumes "case opt_maxFeedSize opts of None \<Rightarrow> True | Some n \<Rightarrow> 0 \<le> n"
    and "fm = feed_init listed (FeedManager opts)"
  shows "int (length (feed (addComments fm (take n ks)))) \<le> maxFeedSize (config fm)"
proof -
  from assms have "0 \<le> maxFeedSize (config fm)"
    by (simp split: option.splits)
  moreover from this assms(2) have "int (length (feed fm)) \<le> maxFeedSize (config fm)"
    by simp
  ultimately show ?thesis by (rule addComments_bounded)
qed

theorem feed_bounded_witness:
  "int (length (feed (addComments (feed_init False (FeedManager (mk_options (Some 2) None)))
      (take 3 [call_of c1, call_of c2, call_of c3])))) \<le> 2"
  using feed_bounded[of "mk_options (Some 2) None" _ False 3 "[call_of c1, call_of c2, call_of c3]",
      OF _ refl]
  by (simp add: mk_options_def)

text \<open>
  As the claim states it, for every configured \<open>maxFeedSize\<close>, it fails: with
  \<open>maxFeedSize = -1\<close> the feed is empty after an approved comment (\<open>slice(0, -1)\<close> of
  the one comment), and its length 0 is above \<open>-1\<close>.
\<close>

theorem feed_bounded_counterexample:
  "feed (addComments (feed_init False (FeedManager (mk_options (Some (- 1)) None))) [call_of c1]) = []
   \<and> maxFeedSize (config (feed_init False (FeedManager (mk_options (Some (- 1)) None)))) = - 1
   \<and> \<not> int (length (feed (addComments (feed_init False (FeedManager (mk_options (Some (- 1)) None)))
           [call_of c1])))
         \<le> maxFeedSize (config (feed_init False (FeedManager (mk_options (Some (- 1)) None))))"
proof -
  have f: "feed (addComments (feed_init False (FeedManager (mk_options (Some (- 1)) None))) [call_of c1]) = []"
    by code_simp
  have m: "maxFeedSize (config (feed_init False (FeedManager (mk_options (Some (- 1)) None)))) = - 1"
    by (simp add: mk_options_def)
  show ?thesis unfolding f m by simp
qed

section \<open>The statistics\<close>











section \<open>The rule stage\<close>

lemma ruleCheck_scenario_c: "ruleCheck scenario_c = mk_result True True ''passed rules''"
  by code_simp


text \<open>
  C4. The rule stage returns \<open>blocked pattern\<close> when the message matches one of the two
  blocklist patterns, else \<open>spam pattern\<close> when it matches one of the three structural
  patterns, else \<open>too short\<close> when the trimmed message has fewer than two characters, else
  it allows, with \<open>highlight\<close> true exactly when the message contains a question mark and is
  longer than 15. With the classifier disabled, the call of \<open>addComment\<close> for the comment
  of scenario C completes, and the comment is approved and enters the feed highlighted.
\<close>

theorem ruleCheck_stages:
  "ruleCheck c =
     (if rx_test rx_keywords (message c) \<or> rx_test rx_links (message c)
        then mk_result False False ''blocked pattern''
      else if test_repeated (message c) \<or> rx_test rx_symbols (message c) \<or> rx_test rx_first (message c)
        then mk_result False False ''spam pattern''
      else if length (trim (message c)) < 2
        then mk_result False False ''too short''
      else mk_result True (63 \<in> set (message c) \<and> 15 < length (message c)) ''passed rules'')
   \<and> fst (addComment now reply (feed_init listed (FeedManager (mk_options None (Some False)))) scenario_c)
       = None
   \<and> feed (snd (addComment now reply (feed_init listed (FeedManager (mk_options None (Some False)))) scenario_c))
       = [\<lparr> base = scenario_c, highlighted = JBool True, approvedAt = now, pinned = False \<rparr>]"
proof (intro conjI)
  show "ruleCheck c =
     (if rx_test rx_keywords (message c) \<or> rx_test rx_links (message c)
        then mk_result False False ''blocked pattern''
      else if test_repeated (message c) \<or> rx_test rx_symbols (message c) \<or> rx_test rx_first (message c)
        then mk_result False False ''spam pattern''
      else if length (trim (message c)) < 2
        then mk_result False False ''too short''
      else mk_result True (63 \<in> set (message c) \<and> 15 < length (message c)) ''passed rules'')"
    by (simp add: ruleCheck_def BLOCKED_PATTERNS_def SPAM_PATTERNS_def str_includes_def Let_def)
next
  let ?fm = "feed_init listed (FeedManager (mk_options None (Some False)))"
  have nouse: "\<not> useAI (moderator ?fm)"
    by (simp add: feed_init_def FeedManager_def mk_options_def Let_def ContentModerator_def moderator_init_def)
  have empty: "cache (moderator ?fm) (cacheKey scenario_c) = None"
    by (simp add: feed_init_def FeedManager_def mk_options_def Let_def ContentModerator_def moderator_init_def)
  have allow: "get_prop (mk_result True True ''passed rules'') ''allow'' = Some (JBool True)"
    and hl: "get_prop (mk_result True True ''passed rules'') ''highlight'' = Some (JBool True)"
    by code_simp+
  have m: "fst (moderate reply (moderator ?fm) scenario_c) = Inr (mk_result True True ''passed rules'')"
    using nouse empty by (simp add: moderate_def Let_def ruleCheck_scenario_c allow)
  have f: "feed ?fm = []" "maxFeedSize (config ?fm) = 50"
    by (simp_all add: mk_options_def)
  obtain out md where p: "moderate reply (moderator ?fm) scenario_c = (out, md)"
    by (cases "moderate reply (moderator ?fm) scenario_c")
  with m have res: "out = Inr (mk_result True True ''passed rules'')" by simp
  show "fst (addComment now reply ?fm scenario_c) = None"
    unfolding addComment_def Let_def
    using p res allow hl f by simp
  show "feed (snd (addComment now reply ?fm scenario_c))
       = [\<lparr> base = scenario_c, highlighted = JBool True, approvedAt = now, pinned = False \<rparr>]"
    unfolding addComment_def Let_def
    using p res allow hl f by simp
qed

theorem ruleCheck_stages_witness:
  "ruleCheck scenario_a = mk_result False False ''blocked pattern''"
proof -
  have "rx_test rx_keywords (message scenario_a)" by code_simp
  with ruleCheck_stages[where c = scenario_a, THEN conjunct1] show ?thesis by simp
qed

section \<open>The cache of the moderator\<close>

lemma cache_set_fields [simp]:
  "cache (cache_set k r md) = (cache md)(k \<mapsto> r)"
  "chatCalls (cache_set k r md) = chatCalls md"
  "ruleCalls (cache_set k r md) = ruleCalls md"
  "useAI (cache_set k r md) = useAI md"
  "aiAvailable (cache_set k r md) = aiAvailable md"
  by (simp_all add: cache_set_def)

lemma moderate_hit: "cache md (cacheKey c) = Some r \<Longrightarrow> moderate reply md c = (Inr r, md)"
  by (simp add: moderate_def)






text \<open>
  The comment \<open>c1\<close> passes the rules, and the reply \<open>reply_allow\<close> holds an object that
  \<open>aiCheck\<close> finds and parses, so a moderator with the classifier enabled and available
  returns that object for \<open>c1\<close>.
\<close>

lemma ruleCheck_c1: "ruleCheck c1 = mk_result True False ''passed rules''"
  by code_simp

lemma passed_allows: "truthy (get_prop (mk_result True False ''passed rules'') ''allow'')"
  by code_simp

lemma aiCheck_reply_allow:
  "aiCheck c1 reply_allow
     = Inr [(js ''allow'', JBool True), (js ''highlight'', JBool False), (js ''reason'', JStr (js ''fine''))]"
  by code_simp

lemma md_ai_fields: "cache md_ai k = None" "useAI md_ai" "aiAvailable md_ai"
  by (simp_all add: md_ai_def moderator_init_def ContentModerator_def)






text \<open>
  C9. The claim reads the cache as keyed by the pair of author and message. The key is the
  text \<open>author:message\<close>, and two different pairs can give the same text: the author
  \<open>bob\<close> with the message \<open>:aaaaaaaaaaa\<close> and the author \<open>bob:\<close> with the message
  \<open>aaaaaaaaaaa\<close>. After the first comment (which passes the rules) is moderated, the second,
  which the rule stage would block as spam, gets the cached result of the first and is
  allowed.
\<close>

theorem cache_key_collision:
  "(author collide_a, message collide_a) \<noteq> (author collide_b, message collide_b)
   \<and> cacheKey collide_a = cacheKey collide_b
   \<and> ruleCheck collide_a = mk_result True False ''passed rules''
   \<and> ruleCheck collide_b = mk_result False False ''spam pattern''
   \<and> fst (moderate down (snd (moderate down (ContentModerator None (Some False) None) collide_a)) collide_b)
       = Inr (mk_result True False ''passed rules'')"
  by code_simp

section \<open>The results of moderation\<close>

lemma well_formed_mk_result: "well_formed (mk_result a h r)"
  by (simp add: well_formed_def mk_result_def get_prop_def js_def)

lemma well_formed_ruleCheck: "well_formed (ruleCheck c)"
  by (simp add: ruleCheck_def Let_def well_formed_mk_result)

lemma aiCheck_shape:
  "aiCheck c reply = Inr r \<Longrightarrow>
   well_formed r
   \<or> (\<exists>content m. reply = ChatReplies content \<and> rx_match rx_braces (trim content) = Some m
         \<and> JSON_parse m = Some (JObj r))"
proof (cases reply)
  case (ChatThrows e)
  assume "aiCheck c reply = Inr r"
  with ChatThrows show ?thesis by (simp add: aiCheck_def)
next
  case (ChatReplies content)
  assume r: "aiCheck c reply = Inr r"
  show ?thesis
  proof (cases "rx_match rx_braces (trim content)")
    case None
    with r ChatReplies have "r = mk_result True False ''ai parse failed''"
      by (simp add: aiCheck_def Let_def)
    then show ?thesis by (simp add: well_formed_mk_result)
  next
    case (Some jm)
    with r ChatReplies have "JSON_parse jm = Some (JObj r)"
      by (auto simp: aiCheck_def Let_def split: option.splits json.splits)
    with Some ChatReplies show ?thesis by simp
  qed
qed

lemma aiCheck_not_nullish:
  "reply \<noteq> ChatThrows Nullish \<Longrightarrow> aiCheck c reply \<noteq> Inl Nullish"
  by (cases reply) (auto simp: aiCheck_def Let_def split: option.splits json.splits)

text \<open>
  C3. For every comment and every behaviour of the classifier other than a rejection with
  \<open>null\<close> or \<open>undefined\<close>, \<open>moderate\<close> does not raise: it returns a result, and the result
  is in the cache under the key of the comment afterwards. A cached result is returned as
  it is. On a miss, the result is the rule result, unless the rules allow and the classifier
  is enabled and available: then it is what \<open>aiCheck\<close> returns, and the rule result when
  \<open>aiCheck\<close> fails (the call throws, or the brace group of the reply is no valid JSON).
  The rule results are well formed, and so is every result on a miss except on one path:
  when the reply contains a brace group that \<open>JSON.parse\<close> accepts, the parsed object is the
  result, whatever its properties are.
\<close>

theorem moderate_results:
  assumes "reply \<noteq> ChatThrows Nullish"
  shows "\<exists>r md'. moderate reply md c = (Inr r, md')
     \<and> cache md' (cacheKey c) = Some r
     \<and> (case cache md (cacheKey c) of
          Some cached \<Rightarrow> r = cached \<and> md' = md
        | None \<Rightarrow>
            (if truthy (get_prop (ruleCheck c) ''allow'') \<and> useAI md \<and> aiAvailable md
             then (case aiCheck c reply of
                     Inr parsed \<Rightarrow> r = parsed
                   | Inl failure \<Rightarrow> r = ruleCheck c)
             else r = ruleCheck c)
            \<and> well_formed (ruleCheck c)
            \<and> (well_formed r
                \<or> (\<exists>content m. reply = ChatReplies content
                      \<and> rx_match rx_braces (trim content) = Some m
                      \<and> JSON_parse m = Some (JObj r))))"
proof (cases "cache md (cacheKey c)")
  case (Some cached)
  then show ?thesis by (simp add: moderate_hit)
next
  case None
  note nn = aiCheck_not_nullish[OF assms, of c]
  show ?thesis
  proof (cases "truthy (get_prop (ruleCheck c) ''allow'') \<and> useAI md \<and> aiAvailable md")
    case False
    with None show ?thesis
      by (auto simp: moderate_def Let_def well_formed_ruleCheck)
  next
    case True
    show ?thesis
    proof (cases "aiCheck c reply")
      case (Inl failure)
      with nn have "failure \<noteq> Nullish" by simp
      with None True Inl show ?thesis
        by (cases failure) (simp_all add: moderate_def Let_def well_formed_ruleCheck)
    next
      case (Inr parsed)
      from aiCheck_shape[OF Inr] None True Inr show ?thesis
        by (simp add: moderate_def Let_def well_formed_ruleCheck)
    qed
  qed
qed

text \<open>
  Instances: the classifier replies with an object in prose, and the parsed object is
  returned and cached; and the classifier is down, and the rule result is returned.
\<close>

theorem moderate_results_witness:
  "fst (moderate reply_allow md_ai c1)
     = Inr [(js ''allow'', JBool True), (js ''highlight'', JBool False), (js ''reason'', JStr (js ''fine''))]
   \<and> cache (snd (moderate reply_allow md_ai c1)) (cacheKey c1)
     = Some [(js ''allow'', JBool True), (js ''highlight'', JBool False), (js ''reason'', JStr (js ''fine''))]
   \<and> fst (moderate down md_ai c1) = Inr (ruleCheck c1)"
proof -
  let ?parsed = "[(js ''allow'', JBool True), (js ''highlight'', JBool False), (js ''reason'', JStr (js ''fine''))]"
  have miss: "cache md_ai (cacheKey c1) = None"
    by (rule md_ai_fields)
  have on: "truthy (get_prop (ruleCheck c1) ''allow'')" "useAI md_ai" "aiAvailable md_ai"
    by (simp_all add: ruleCheck_c1 passed_allows md_ai_fields)
  have parsed: "aiCheck c1 reply_allow = Inr ?parsed"
    by (rule aiCheck_reply_allow)
  have thrown: "aiCheck c1 down = Inl (ErrorObject (Error (js ''fetch failed'')))"
    by (simp add: aiCheck_def down_def)
  have replies: "reply_allow \<noteq> ChatThrows Nullish"
    by (simp add: reply_allow_def)
  have throws: "down \<noteq> ChatThrows Nullish"
    by (simp add: down_def)
  from moderate_results[where md = md_ai and c = c1 and reply = reply_allow, OF replies]
  obtain r md' where a: "moderate reply_allow md_ai c1 = (Inr r, md')"
    and b: "cache md' (cacheKey c1) = Some r"
    and c: "case cache md_ai (cacheKey c1) of
          Some cached \<Rightarrow> r = cached \<and> md' = md_ai
        | None \<Rightarrow>
            (if truthy (get_prop (ruleCheck c1) ''allow'') \<and> useAI md_ai \<and> aiAvailable md_ai
             then (case aiCheck c1 reply_allow of
                     Inr parsed \<Rightarrow> r = parsed
                   | Inl failure \<Rightarrow> r = ruleCheck c1)
             else r = ruleCheck c1)
            \<and> well_formed (ruleCheck c1)
            \<and> (well_formed r
                \<or> (\<exists>content m. reply_allow = ChatReplies content
                      \<and> rx_match rx_braces (trim content) = Some m
                      \<and> JSON_parse m = Some (JObj r)))"
    by blast
  from c have r: "r = ?parsed"
    unfolding miss parsed using on by simp
  from moderate_results[where md = md_ai and c = c1 and reply = down, OF throws]
  obtain r2 md2 where a2: "moderate down md_ai c1 = (Inr r2, md2)"
    and c2: "case cache md_ai (cacheKey c1) of
          Some cached \<Rightarrow> r2 = cached \<and> md2 = md_ai
        | None \<Rightarrow>
            (if truthy (get_prop (ruleCheck c1) ''allow'') \<and> useAI md_ai \<and> aiAvailable md_ai
             then (case aiCheck c1 down of
                     Inr parsed \<Rightarrow> r2 = parsed
                   | Inl failure \<Rightarrow> r2 = ruleCheck c1)
             else r2 = ruleCheck c1)
            \<and> well_formed (ruleCheck c1)
            \<and> (well_formed r2
                \<or> (\<exists>content m. down = ChatReplies content
                      \<and> rx_match rx_braces (trim content) = Some m
                      \<and> JSON_parse m = Some (JObj r2)))"
    by blast
  from c2 have r2: "r2 = ruleCheck c1"
    unfolding miss thrown using on by simp
  from a b r a2 r2 show ?thesis by simp
qed

text \<open>
  As the claim states it, every result is well formed, and that fails: the reply
  \<^verbatim>\<open>{"allow":"no"}\<close> parses, and the object with the one property \<open>allow\<close>, a
  string, is the result.
\<close>

theorem moderate_malformed:
  "fst (moderate reply_malformed md_ai c1) = Inr [(js ''allow'', JStr (js ''no''))]
   \<and> \<not> well_formed [(js ''allow'', JStr (js ''no''))]"
  by code_simp

section \<open>Clearing the feed\<close>


lemma clear_fields [simp]:
  "feed (clear fm) = []" "stats (clear fm) = empty_stats" "moderator (clear fm) = moderator fm"
  "config (clear fm) = config fm"
  by (simp_all add: clear_def)



section \<open>Pinning\<close>

lemma scenario_d: "getFeed 10 fm_d = [enrich c3 False False, enrich c2 True False]"
  by code_simp

text \<open>
  C6. Scenario E: after scenario D the feed is \<open>[c3, c2]\<close>; \<open>pin\<close> of \<open>c2\<close> moves it to the
  head, and the approved \<open>c4\<close> is then put in front of it and the feed is cut to two
  entries. The feed is \<open>[c4, c2]\<close>, with \<open>c2\<close> pinned: neither \<open>[c2, c4]\<close> nor \<open>[c4, c3]\<close>.
\<close>

theorem scenario_e:
  "fst (addComment stamp down (pin (cid c2) fm_d) c4) = None
   \<and> getFeed 10 (snd (addComment stamp down (pin (cid c2) fm_d) c4))
     = [enrich c4 False False, enrich c2 True True]
   \<and> map (cid \<circ> base) (getFeed 10 (snd (addComment stamp down (pin (cid c2) fm_d) c4)))
       = [cid c4, cid c2]"
proof -
  have run: "map_prod id (getFeed 10) (addComment stamp down (pin (cid c2) fm_d) c4)
      = (None, [enrich c4 False False, enrich c2 True True])"
    by code_simp
  then have "fst (addComment stamp down (pin (cid c2) fm_d) c4) = None"
    and "getFeed 10 (snd (addComment stamp down (pin (cid c2) fm_d) c4))
      = [enrich c4 False False, enrich c2 True True]"
    by (cases "addComment stamp down (pin (cid c2) fm_d) c4", simp)+
  then show ?thesis by (simp add: enrich_def)
qed

section \<open>Starting all platforms\<close>

lemma map_of_mark:
  "map_of (map (\<lambda>(n', a). if n' = n then (n', f a) else (n', a)) ps) k =
     (case map_of ps k of None \<Rightarrow> None | Some a \<Rightarrow> Some (if k = n then f a else a))"
  by (induction ps) auto

lemma list_names_set_started [simp]: "list_names (set_started n b m) = list_names m"
  by (simp add: list_names_def set_started_def comp_def case_prod_unfold)

lemma list_names_pm_emit [simp]: "list_names (pm_emit ev m) = list_names m"
  by (simp add: list_names_def pm_emit_def)

lemma pm_events_set_started [simp]: "pm_events (set_started n b m) = pm_events m"
  by (simp add: set_started_def)

lemma pm_events_pm_emit [simp]: "pm_events (pm_emit ev m) = pm_events m @ [ev]"
  by (simp add: pm_emit_def)

lemma platforms_pm_emit [simp]: "platforms (pm_emit ev m) = platforms m"
  by (simp add: pm_emit_def)

lemma is_started_set_started [simp]:
  "is_started (set_started n b m) k = (if k = n \<and> k \<in> set (list_names m) then b else is_started m k)"
  by (auto simp: is_started_def set_started_def map_of_mark list_names_def
      dom_map_of_conv_image_fst[symmetric] split: option.splits)

lemma is_started_pm_emit [simp]: "is_started (pm_emit ev m) k = is_started m k"
  by (simp add: is_started_def)

lemma registered: "n \<in> set (list_names m) \<Longrightarrow> \<exists>a. map_of (platforms m) n = Some a"
  by (cases "map_of (platforms m) n") (auto simp: list_names_def map_of_eq_None_iff)

lemma emit_all_registered:
  "n \<in> set (list_names m) \<Longrightarrow>
     platforms (emit_all n evs m) = platforms m
   \<and> pm_events (emit_all n evs m) = pm_events m @ map (forwarded n) evs"
proof (induction evs arbitrary: m)
  case Nil
  then show ?case by (simp add: emit_all_def)
next
  case (Cons ev evs)
  from registered[OF Cons.prems] obtain a where a: "map_of (platforms m) n = Some a" by blast
  then have step: "adapter_emits n ev m = pm_emit (forwarded n ev) m"
    by (simp add: adapter_emits_def)
  have "n \<in> set (list_names (pm_emit (forwarded n ev) m))" using Cons.prems by simp
  from Cons.IH[OF this] step show ?case by (simp add: emit_all_def)
qed

lemma emit_all_fields:
  assumes "n \<in> set (list_names m)"
  shows "list_names (emit_all n evs m) = list_names m"
    and "is_started (emit_all n evs m) k = is_started m k"
    and "pm_events (emit_all n evs m) = pm_events m @ map (forwarded n) evs"
    and "map_of (platforms (emit_all n evs m)) = map_of (platforms m)"
  using emit_all_registered[OF assms, of evs]
  by (simp_all add: list_names_def is_started_def)

lemma startPlatform_registered:
  assumes "n \<in> set (list_names m)"
  shows "fst (startPlatform w n m) = None"
    and "list_names (snd (startPlatform w n m)) = list_names m"
    and "pm_events (snd (startPlatform w n m)) = pm_events m @ start_events w n"
    and "is_started (snd (startPlatform w n m)) k =
           (if k = n \<and> snd (start_of w n) = None then True else is_started m k)"
  using registered[OF assms] assms emit_all_fields[OF assms]
  by (auto simp: startPlatform_def start_events_def split: option.splits prod.splits)

lemma start_each_registered:
  "set ns \<subseteq> set (list_names m) \<Longrightarrow>
     fst (start_each w ns m) = replicate (length ns) None
   \<and> list_names (snd (start_each w ns m)) = list_names m
   \<and> pm_events (snd (start_each w ns m)) = pm_events m @ concat (map (start_events w) ns)
   \<and> (\<forall>k. is_started (snd (start_each w ns m)) k =
           (if k \<in> set ns \<and> snd (start_of w k) = None then True else is_started m k))"
proof (induction ns arbitrary: m)
  case Nil
  then show ?case by simp
next
  case (Cons n ns)
  obtain r m1 where s: "startPlatform w n m = (r, m1)" by (cases "startPlatform w n m")
  from Cons.prems have n: "n \<in> set (list_names m)" by simp
  note sp = startPlatform_registered[OF n, of w]
  from sp s have r: "r = None" and names: "list_names m1 = list_names m"
    and ev: "pm_events m1 = pm_events m @ start_events w n"
    and run: "\<And>k. is_started m1 k = (if k = n \<and> snd (start_of w n) = None then True else is_started m k)"
    by simp_all
  from Cons.prems names have "set ns \<subseteq> set (list_names m1)" by simp
  note ih = Cons.IH[OF this]
  obtain rs m2 where e: "start_each w ns m1 = (rs, m2)" by (cases "start_each w ns m1")
  from ih e r s names ev run show ?case by auto
qed

lemma report_rejected_none: "report_rejected i (replicate k None) m = m"
  by (induction k arbitrary: i) simp_all

lemma startAll_registered:
  "list_names (startAll w m) = list_names m
   \<and> pm_events (startAll w m) = pm_events m @ concat (map (start_events w) (list_names m))
   \<and> (\<forall>k. is_started (startAll w m) k =
           (if k \<in> set (list_names m) \<and> snd (start_of w k) = None then True else is_started m k))"
proof -
  obtain rs m1 where e: "start_each w (list_names m) m = (rs, m1)"
    by (cases "start_each w (list_names m) m")
  from start_each_registered[of "list_names m" m w] e
  have "rs = replicate (length (list_names m)) None" and rest:
    "list_names m1 = list_names m"
    "pm_events m1 = pm_events m @ concat (map (start_events w) (list_names m))"
    "\<forall>k. is_started m1 k =
           (if k \<in> set (list_names m) \<and> snd (start_of w k) = None then True else is_started m k)"
    by simp_all
  then have "startAll w m = m1"
    by (simp add: startAll_def e report_rejected_none)
  with rest show ?thesis by simp
qed

lemma errors_in_append [simp]: "errors_in (xs @ ys) = errors_in xs @ errors_in ys"
  by (simp add: errors_in_def)

lemma errors_in_start_events:
  "quiet_start w n \<Longrightarrow>
   errors_in (start_events w n) =
     (case snd (start_of w n) of None \<Rightarrow> [] | Some e \<Rightarrow> [PlatformError (Some n) e])"
proof -
  assume q: "quiet_start w n"
  have "errors_in (map (forwarded n) evs) = []"
    if "list_all (\<lambda>ev. case ev of EmitsError e \<Rightarrow> False | _ \<Rightarrow> True) evs" for evs
    using that by (induction evs) (auto simp: errors_in_def forwarded_def split: adapter_event.splits)
  with q have "errors_in (map (forwarded n) (fst (start_of w n))) = []"
    by (simp add: quiet_start_def)
  then show ?thesis
    by (simp add: start_events_def errors_in_def split: option.splits)
qed

lemma errors_one:
  "distinct ns \<Longrightarrow> bad \<in> set ns \<Longrightarrow> snd (start_of w bad) = Some e \<Longrightarrow>
   (\<forall>n \<in> set ns. n \<noteq> bad \<longrightarrow> snd (start_of w n) = None) \<Longrightarrow>
   (\<forall>n \<in> set ns. quiet_start w n) \<Longrightarrow>
   errors_in (concat (map (start_events w) ns)) = [PlatformError (Some bad) e]"
proof (induction ns)
  case Nil
  then show ?case by simp
next
  case (Cons n ns)
  have nil: "errors_in [] = []" by (simp add: errors_in_def)
  from Cons.prems have q: "quiet_start w n" by simp
  show ?case
  proof (cases "n = bad")
    case True
    with Cons.prems have none: "\<forall>k \<in> set ns. snd (start_of w k) = None \<and> quiet_start w k" by auto
    then have "errors_in (concat (map (start_events w) ns)) = []"
      by (induction ns) (simp_all add: errors_in_start_events nil)
    with True Cons.prems(3) q show ?thesis by (simp add: errors_in_start_events)
  next
    case False
    with Cons have "errors_in (concat (map (start_events w) ns)) = [PlatformError (Some bad) e]" by auto
    moreover from False Cons.prems have "snd (start_of w n) = None" by auto
    ultimately show ?thesis using q by (simp add: errors_in_start_events nil)
  qed
qed

text \<open>
  C7. Three adapters are registered, the \<open>start\<close> of exactly one of them throws, and no
  adapter emits an error event of its own while it starts. Then \<open>startAll\<close> completes:
  \<open>startPlatform\<close> rejects for none of the three, so the second loop of \<open>startAll\<close> has
  nothing to report. The registry is as before, the other two adapters are started, the
  state of the one that threw is as before, and among the events that \<open>startAll\<close> adds
  there is exactly one error event, tagged with the name of the adapter that threw and
  carrying what it threw.
\<close>

theorem startAll_isolation:
  assumes "distinct (list_names m)" and "length (list_names m) = 3"
    and "bad \<in> set (list_names m)" and "snd (start_of w bad) = Some e"
    and "\<forall>n \<in> set (list_names m). n \<noteq> bad \<longrightarrow> snd (start_of w n) = None"
    and "\<forall>n \<in> set (list_names m). quiet_start w n"
  shows "fst (start_each w (list_names m) m) = [None, None, None]
    \<and> list_names (startAll w m) = list_names m
    \<and> errors_in (drop (length (pm_events m)) (pm_events (startAll w m))) = [PlatformError (Some bad) e]
    \<and> (\<forall>n \<in> set (list_names m). n \<noteq> bad \<longrightarrow> is_started (startAll w m) n)
    \<and> is_started (startAll w m) bad = is_started m bad"
proof -
  have "fst (start_each w (list_names m) m) = replicate 3 None"
    using start_each_registered[of "list_names m" m w] assms(2) by simp
  then have a: "fst (start_each w (list_names m) m) = [None, None, None]"
    by (simp add: numeral_3_eq_3)
  note all = startAll_registered[of w m]
  have ev: "errors_in (drop (length (pm_events m)) (pm_events (startAll w m))) = [PlatformError (Some bad) e]"
    using all errors_one[OF assms(1,3,4,5,6)] by simp
  have run: "\<forall>n \<in> set (list_names m). n \<noteq> bad \<longrightarrow> is_started (startAll w m) n"
    using all assms(5) by simp
  have bad: "is_started (startAll w m) bad = is_started m bad"
    using all assms(4) by simp
  from a all ev run bad show ?thesis by simp
qed

lemma three_platforms_names:
  "list_names three_platforms = [js ''youtube'', js ''twitch'', js ''tiktok'']"
  by code_simp

lemma three_platforms_events: "pm_events three_platforms = []"
  by code_simp

text \<open>An instance: \<open>YouTubeChat\<close> has no video id, the other two start.\<close>

theorem startAll_isolation_witness:
  "errors_in (pm_events (startAll youtube_throws three_platforms))
     = [PlatformError (Some (js ''youtube'')) no_video]
   \<and> is_started (startAll youtube_throws three_platforms) (js ''twitch'')
   \<and> is_started (startAll youtube_throws three_platforms) (js ''tiktok'')
   \<and> list_names (startAll youtube_throws three_platforms) = [js ''youtube'', js ''twitch'', js ''tiktok'']"
proof -
  have d: "distinct (list_names three_platforms)" "length (list_names three_platforms) = 3"
    "js ''youtube'' \<in> set (list_names three_platforms)"
    unfolding three_platforms_names by (simp_all add: js_def)
  have b: "snd (start_of youtube_throws (js ''youtube'')) = Some no_video"
    by (simp add: youtube_throws_def)
  have o: "\<forall>n \<in> set (list_names three_platforms). n \<noteq> js ''youtube'' \<longrightarrow> snd (start_of youtube_throws n) = None"
    by (simp add: youtube_throws_def)
  have q: "\<forall>n \<in> set (list_names three_platforms). quiet_start youtube_throws n"
    unfolding three_platforms_names by (simp add: youtube_throws_def quiet_start_def js_def)
  have y: "js ''twitch'' \<in> set (list_names three_platforms)" "js ''twitch'' \<noteq> js ''youtube''"
    "js ''tiktok'' \<in> set (list_names three_platforms)" "js ''tiktok'' \<noteq> js ''youtube''"
    unfolding three_platforms_names by (simp_all add: js_def)
  from startAll_isolation[OF d b o q] y three_platforms_events three_platforms_names
  show ?thesis by simp
qed

text \<open>
  As the claim states it, for every three adapters of which exactly one throws in \<open>start\<close>,
  it fails: \<open>TikTokChat\<close> reports a failed connection by an error event, and its \<open>start\<close>
  resolves. With \<open>YouTubeChat\<close> throwing, exactly one \<open>start\<close> throws, and the manager
  emits two error events.
\<close>

theorem startAll_two_errors:
  "snd (start_of tiktok_fails_too (js ''youtube'')) = Some no_video
   \<and> snd (start_of tiktok_fails_too (js ''twitch'')) = None
   \<and> snd (start_of tiktok_fails_too (js ''tiktok'')) = None
   \<and> list_names three_platforms = [js ''youtube'', js ''twitch'', js ''tiktok'']
   \<and> errors_in (pm_events (startAll tiktok_fails_too three_platforms))
       = [PlatformError (Some (js ''youtube'')) no_video,
          PlatformError (Some (js ''tiktok'')) connect_failed]"
  by code_simp

section \<open>Registering an unknown name\<close>

text \<open>A name that reads nothing from \<open>PLATFORMS\<close> is rejected, and the state is unchanged.\<close>

lemma addPlatform_unknown:
  "PLATFORMS name = None \<Longrightarrow>
   addPlatform w name cfg autoStart m = (Some (Error (js ''Unknown platform: '' @ name)), m)"
  by (simp add: addPlatform_def)

text \<open>
  C8. The name \<open>constructor\<close> is none of the three adapters, and \<open>addPlatform\<close> does not
  reject it as unknown: \<^verbatim>\<open>PLATFORMS['constructor']\<close> is the inherited function \<open>Object\<close>,
  which is truthy, so the check passes, \<open>new Object(config)\<close> gives the configuration back, and
  \<^verbatim>\<open>instance.on\<close> is no function. The call fails with a \<open>TypeError\<close>, not with
  \<open>Unknown platform: constructor\<close>.
\<close>

theorem addPlatform_constructor:
  "PLATFORMS (js ''constructor'') = Some ObjectFunction
   \<and> addPlatform silent (js ''constructor'') [] False PlatformManager = (Some TypeError, PlatformManager)
   \<and> fst (addPlatform silent (js ''constructor'') [] False PlatformManager)
       \<noteq> Some (Error (js ''Unknown platform: constructor''))"
  by code_simp

end
